theory Spec2Isabelle
  imports Main
begin

section \<open>Errors, strings and paths\<close>

text \<open>
  The program catches almost nothing: a missing element of the fetched markup, a failed
  request and an ambiguous lookup all surface as Python exceptions that end the command.
  The model keeps one value per family of exception.
\<close>

datatype error =
    ParseFault
  | TransportFault
  | MultipleResultsFound
  | OSFault
  | Aborted

text \<open>
  \<open>ParseFault\<close>: an element, attribute, key or match the code reads is absent
  (TypeError, AttributeError, KeyError, IndexError, ValueError, dateutil's ParserError).
  \<open>TransportFault\<close>: requests raises on a request. \<open>MultipleResultsFound\<close>:
  \<open>one_or_none()\<close> on more than one row. \<open>OSFault\<close>: the operating system
  refuses a file operation. \<open>Aborted\<close>: a prompt runs out of input.
\<close>

definition is_space :: "char \<Rightarrow> bool" where
  "is_space c = (let n = (of_char c :: nat) in (9 \<le> n \<and> n \<le> 13) \<or> (28 \<le> n \<and> n \<le> 32))"

text \<open>\<open>str.strip()\<close> on text below code point 128.\<close>

definition strip :: "string \<Rightarrow> string" where
  "strip s = rev (dropWhile is_space (rev (dropWhile is_space s)))"

definition need :: "'a option \<Rightarrow> ('a \<Rightarrow> error + 'b) \<Rightarrow> error + 'b" where
  "need x f = (case x of None \<Rightarrow> Inl ParseFault | Some v \<Rightarrow> f v)"

definition base_url :: string where
  "base_url = ''https://myfavoritemurder.com''"

section \<open>The catalog store: a unit-of-work session over one table\<close>

text \<open>
  \<open>self.db\<close> is an SQLAlchemy session. A table row is the pair of its integer
  primary key and the mapped object's other columns; an object made by
  \<open>self.model(...)\<close> has no key until it is flushed.
  \<^item> \<open>stored\<close>: the committed rows, in key order: what is durably in the table;
  \<^item> \<open>flushed\<close>: rows inserted in the open transaction, not yet committed;
  \<^item> \<open>pending\<close>: objects passed to \<open>add\<close> and not yet flushed;
  \<^item> \<open>autoflush\<close>: whether a query flushes the pending objects first. The session
    comes from \<open>manager.get_session()\<close>, which is not part of the sources at hand;
    the library's default is on.
\<close>

record 'a session =
  stored :: "(nat \<times> 'a) list"
  flushed :: "(nat \<times> 'a) list"
  pending :: "'a list"
  autoflush :: bool

definition next_rowid :: "(nat \<times> 'a) list \<Rightarrow> nat" where
  "next_rowid rows = Suc (fold max (map fst rows) 0)"

fun assign_ids :: "nat \<Rightarrow> 'a list \<Rightarrow> (nat \<times> 'a) list" where
  "assign_ids n [] = []"
| "assign_ids n (x # xs) = (n, x) # assign_ids (Suc n) xs"

definition db_add :: "'a \<Rightarrow> 'a session \<Rightarrow> 'a session" where
  "db_add obj s = s\<lparr>pending := pending s @ [obj]\<rparr>"

definition db_flush :: "'a session \<Rightarrow> 'a session" where
  "db_flush s =
     s\<lparr>flushed := flushed s @ assign_ids (next_rowid (stored s @ flushed s)) (pending s),
       pending := []\<rparr>"

definition db_commit :: "'a session \<Rightarrow> 'a session" where
  "db_commit s = (let s' = db_flush s in s'\<lparr>stored := stored s' @ flushed s', flushed := []\<rparr>)"

text \<open>\<open>self.db.query(self.model)\<close>: the rows the session's transaction sees.\<close>

definition db_query :: "'a session \<Rightarrow> (nat \<times> 'a) list \<times> 'a session" where
  "db_query s = (let s' = (if autoflush s then db_flush s else s) in (stored s' @ flushed s', s'))"

definition one_or_none :: "'r list \<Rightarrow> error + 'r option" where
  "one_or_none rows =
     (case rows of [] \<Rightarrow> Inr None | [r] \<Rightarrow> Inr (Some r) | _ \<Rightarrow> Inl MultipleResultsFound)"

text \<open>\<open>query.get(id)\<close>: the row of that primary key.\<close>

definition db_get :: "nat \<Rightarrow> 'a session \<Rightarrow> (nat \<times> 'a) option \<times> 'a session" where
  "db_get i s = (let (rows, s') = db_query s in (find (\<lambda>r. fst r = i) rows, s'))"

text \<open>Every object the session holds, whatever its stage.\<close>

definition all_objs :: "'a session \<Rightarrow> 'a list" where
  "all_objs s = map snd (stored s) @ map snd (flushed s) @ pending s"

definition new_session :: "(nat \<times> 'a) list \<Rightarrow> bool \<Rightarrow> 'a session" where
  "new_session rows af = \<lparr>stored = rows, flushed = [], pending = [], autoflush = af\<rparr>"

section \<open>Content items\<close>

text \<open>
  The columns both tables share, then each kind's own. Dates are naive timestamps,
  as integers.
\<close>

record item =
  title :: string
  date :: int
  url :: string
  image :: string

record minisode = item +
  description :: string
  audio :: string

record video_item = item +
  vtype :: string
  video :: string
  video_image :: string

text \<open>\<open>query.filter_by(title=title, url=url).one_or_none()\<close>, for either kind.\<close>

definition find_by_title_url ::
  "string \<Rightarrow> string \<Rightarrow> ('z item_scheme) session
     \<Rightarrow> (error + (nat \<times> 'z item_scheme) option) \<times> ('z item_scheme) session" where
  "find_by_title_url t u s =
     (let (rows, s') = db_query s
      in (one_or_none (filter (\<lambda>r. title (snd r) = t \<and> url (snd r) = u) rows), s'))"

definition find_episode ::
  "string \<Rightarrow> string \<Rightarrow> minisode session \<Rightarrow> (error + (nat \<times> minisode) option) \<times> minisode session" where
  "find_episode = find_by_title_url"

definition find_video ::
  "string \<Rightarrow> string \<Rightarrow> video_item session \<Rightarrow> (error + (nat \<times> video_item) option) \<times> video_item session" where
  "find_video = find_by_title_url"

section \<open>The site, as the program reads it\<close>

text \<open>
  An element of the minisode listing: what \<open>_create_episode\<close> reads from it, with
  \<open>None\<close> where the read raises. \<open>ep_date\<close> is the result of
  \<open>_get_episode_date(ep)\<close>.
\<close>

record ep_element =
  ep_a_href :: "string option"
  ep_h1_text :: "string option"
  ep_date :: "int option"

text \<open>
  A minisode's own page: the text of \<open>div.home-about p\<close>, the \<open>src\<close> of its
  image, and the group the pattern \<open>m4a: "(.+)"\<close> matches in the second inline script.
\<close>

record episode_page =
  about_p_text :: "string option"
  about_img_src :: "string option"
  script_m4a :: "string option"

text \<open>
  An article of the news grid. \<open>art_h6_parts\<close> is the unpacking of
  \<open>article.h6.text.strip()[:-1].split(' - ')\<close> into the date text and the video type,
  \<open>art_date\<close> what \<open>parser.parse\<close> makes of that date text.
\<close>

record article_element =
  art_h1_text :: "string option"
  art_a_href :: "string option"
  art_h6_parts :: "(string \<times> string) option"
  art_date :: "int option"
  art_data_vimeo :: "string option"

text \<open>
  The responses of the network, as functions of the request:
  \<^item> \<open>episodes_listing\<close>: the parents' parents of the \<open>fancult-tag\<close> elements of
    the episodes page, in page order; \<open>None\<close> where the fetch or the parse raises;
  \<^item> \<open>episode_pages\<close>: the page at a minisode's address;
  \<^item> \<open>news_listing\<close>: the articles of the news grid for a page size;
  \<^item> \<open>vimeo_oembed\<close>: the JSON object of the metadata service for a request address;
  \<^item> \<open>head_headers\<close>: Content-Type and Content-Length of a HEAD request;
  \<^item> \<open>media_chunks\<close>: the chunks of a streamed GET;
  \<^item> \<open>iframe_src\<close>: the \<open>src\<close> of the first \<open>iframe\<close> of a markup fragment;
  \<^item> \<open>vimeo_best_stream\<close>: the best stream the downloader library finds for a
    player address embedded on a page; \<open>stream_download\<close> lists the files the
    library writes (path and bytes) when asked to download into a directory;
  \<^item> \<open>login_form_action\<close>: the \<open>action\<close> of the first form of the login page;
  \<^item> \<open>login_post\<close>: the answer to the login request for an address, a user name
    and a password: a failing status, or the JSON's \<open>LoginStatus\<close>.
  In each, \<open>None\<close> is a request or a read that raises.
\<close>

record vimeo_stream =
  stream_title :: string
  stream_download :: "string \<Rightarrow> (string \<times> string) list"

datatype login_response = Http_error string | Login_json "bool option"

record site =
  episodes_listing :: "ep_element list option"
  episode_pages :: "string \<Rightarrow> episode_page option"
  news_listing :: "int \<Rightarrow> article_element list option"
  vimeo_oembed :: "string \<Rightarrow> (string \<rightharpoonup> string) option"
  head_headers :: "string \<Rightarrow> (string option \<times> string option) option"
  media_chunks :: "string \<Rightarrow> string list option"
  iframe_src :: "string \<Rightarrow> string option"
  vimeo_best_stream :: "string \<Rightarrow> string \<Rightarrow> vimeo_stream option"
  login_form_action :: "string option"
  login_post :: "string \<Rightarrow> string \<Rightarrow> string \<Rightarrow> login_response option"

section \<open>Ingestion\<close>

definition build_episode :: "site \<Rightarrow> ep_element \<Rightarrow> string \<Rightarrow> string \<Rightarrow> error + minisode" where
  "build_episode st ep ep_title ep_url =
     (case episode_pages st ep_url of
        None \<Rightarrow> Inl TransportFault
      | Some page \<Rightarrow>
          need (script_m4a page) (\<lambda>m4a.
          need (about_p_text page) (\<lambda>p.
          need (ep_date ep) (\<lambda>d.
          need (about_img_src page) (\<lambda>img.
            Inr \<lparr>title = ep_title, date = d, url = ep_url, image = strip img,
                 description = strip p, audio = strip m4a\<rparr>)))))"

text \<open>\<open>_create_episode\<close>: \<open>Inr None\<close> is its \<open>return None\<close>.\<close>

definition create_episode ::
  "site \<Rightarrow> ep_element \<Rightarrow> minisode session \<Rightarrow> (error + minisode option) \<times> minisode session" where
  "create_episode st ep s =
     (case ep_a_href ep of
        None \<Rightarrow> (Inl ParseFault, s)
      | Some href \<Rightarrow>
          (case ep_h1_text ep of
             None \<Rightarrow> (Inl ParseFault, s)
           | Some h1 \<Rightarrow>
               (let ep_url = base_url @ strip href; ep_title = strip h1
                in case find_episode ep_title ep_url s of
                     (Inl e, s') \<Rightarrow> (Inl e, s')
                   | (Inr (Some found), s') \<Rightarrow> (Inr None, s')
                   | (Inr None, s') \<Rightarrow>
                       (case build_episode st ep ep_title ep_url of
                          Inl e \<Rightarrow> (Inl e, s')
                        | Inr episode \<Rightarrow> (Inr (Some episode), s')))))"

text \<open>
  The scanning loop of \<open>_update_episodes\<close> and \<open>_update_videos\<close>: the two differ
  only in the function that makes an item.
\<close>

fun update_loop ::
  "('c \<Rightarrow> 'a session \<Rightarrow> (error + 'a option) \<times> 'a session) \<Rightarrow> 'c list \<Rightarrow> 'a list \<Rightarrow> 'a session
     \<Rightarrow> (error + 'a list) \<times> 'a session" where
  "update_loop create [] added s = (Inr added, s)"
| "update_loop create (c # cs) added s =
     (case create c s of
        (Inl e, s') \<Rightarrow> (Inl e, s')
      | (Inr None, s') \<Rightarrow> update_loop create cs added s'
      | (Inr (Some obj), s') \<Rightarrow> update_loop create cs (added @ [obj]) (db_add obj s'))"

text \<open>
  The end of both update functions: \<open>if added: self.db.commit()\<close>, then
  \<open>return added\<close>. The items returned are the objects added, by their columns; the
  store gives them their keys when they are flushed.
\<close>

definition finish_update :: "(error + 'a list) \<times> 'a session \<Rightarrow> (error + 'a list) \<times> 'a session" where
  "finish_update r =
     (case r of
        (Inl e, s') \<Rightarrow> (Inl e, s')
      | (Inr added, s') \<Rightarrow> (Inr added, if added \<noteq> [] then db_commit s' else s'))"

text \<open>\<open>_update_episodes\<close> and, further down, \<open>_update_videos\<close>.\<close>

definition update_episodes :: "site \<Rightarrow> minisode session \<Rightarrow> (error + minisode list) \<times> minisode session" where
  "update_episodes st s =
     (case episodes_listing st of
        None \<Rightarrow> (Inl ParseFault, s)
      | Some fan_cult_eps \<Rightarrow> finish_update (update_loop (create_episode st) fan_cult_eps [] s))"

definition vimeo_url :: string where
  "vimeo_url = ''https://vimeo.com/api/oembed.json?url=''"

text \<open>\<open>_get_video_metadata\<close>: the JSON object of the metadata service.\<close>

definition get_video_metadata :: "site \<Rightarrow> string \<Rightarrow> error + (string \<rightharpoonup> string)" where
  "get_video_metadata st video_url =
     (case vimeo_oembed st (vimeo_url @ video_url) of
        None \<Rightarrow> Inl TransportFault
      | Some json \<Rightarrow> Inr json)"

definition build_video :: "site \<Rightarrow> article_element \<Rightarrow> string \<Rightarrow> string \<Rightarrow> error + video_item" where
  "build_video st article video_title video_url =
     need (art_h6_parts article) (\<lambda>(date_str, video_type).
     need (art_data_vimeo article) (\<lambda>vimeo.
       (case get_video_metadata st vimeo of
          Inl e \<Rightarrow> Inl e
        | Inr video_metadata \<Rightarrow>
            need (art_date article) (\<lambda>d.
            need (video_metadata ''thumbnail_url'') (\<lambda>thumb.
            need (video_metadata ''thumbnail_url_with_play_button'') (\<lambda>thumb_play.
              Inr \<lparr>title = video_title, date = d, url = video_url, image = thumb,
                   vtype = video_type, video = vimeo, video_image = thumb_play\<rparr>))))))"

text \<open>\<open>_create_video\<close>: an article without a heading is passed over.\<close>

definition create_video ::
  "site \<Rightarrow> article_element \<Rightarrow> video_item session \<Rightarrow> (error + video_item option) \<times> video_item session" where
  "create_video st article s =
     (case art_h1_text article of
        None \<Rightarrow> (Inr None, s)
      | Some h1 \<Rightarrow>
          (case art_a_href article of
             None \<Rightarrow> (Inl ParseFault, s)
           | Some href \<Rightarrow>
               (let video_title = strip h1; video_url = base_url @ strip href
                in case find_video video_title video_url s of
                     (Inl e, s') \<Rightarrow> (Inl e, s')
                   | (Inr (Some found), s') \<Rightarrow> (Inr None, s')
                   | (Inr None, s') \<Rightarrow>
                       (case build_video st article video_title video_url of
                          Inl e \<Rightarrow> (Inl e, s')
                        | Inr v \<Rightarrow> (Inr (Some v), s')))))"

definition update_videos :: "site \<Rightarrow> int \<Rightarrow> video_item session \<Rightarrow> (error + video_item list) \<times> video_item session" where
  "update_videos st limit s =
     (case news_listing st limit of
        None \<Rightarrow> (Inl ParseFault, s)
      | Some all_articles \<Rightarrow> finish_update (update_loop (create_video st) all_articles [] s))"

subsection \<open>The shape the two item makers share\<close>

text \<open>
  Both makers read a title and an address from the candidate, look the pair up, and
  build the item only when the lookup finds nothing. \<open>create_item\<close> is that shape,
  with the reading (\<open>ckey\<close>) and the building (\<open>build\<close>) left open; the two
  makers are shown equal to instances of it below.
\<close>

definition dedup_key :: "'z item_scheme \<Rightarrow> string \<times> string" where
  "dedup_key x = (title x, url x)"

definition create_item ::
  "('c \<Rightarrow> error + (string \<times> string) option) \<Rightarrow> ('c \<Rightarrow> string \<Rightarrow> string \<Rightarrow> error + 'z item_scheme)
     \<Rightarrow> 'c \<Rightarrow> ('z item_scheme) session \<Rightarrow> (error + ('z item_scheme) option) \<times> ('z item_scheme) session" where
  "create_item ckey build c s =
     (case ckey c of
        Inl e \<Rightarrow> (Inl e, s)
      | Inr None \<Rightarrow> (Inr None, s)
      | Inr (Some (t, u)) \<Rightarrow>
          (case find_by_title_url t u s of
             (Inl e, s') \<Rightarrow> (Inl e, s')
           | (Inr (Some found), s') \<Rightarrow> (Inr None, s')
           | (Inr None, s') \<Rightarrow>
               (case build c t u of
                  Inl e \<Rightarrow> (Inl e, s')
                | Inr obj \<Rightarrow> (Inr (Some obj), s'))))"

definition ep_key :: "ep_element \<Rightarrow> error + (string \<times> string) option" where
  "ep_key ep =
     (case ep_a_href ep of
        None \<Rightarrow> Inl ParseFault
      | Some href \<Rightarrow>
          (case ep_h1_text ep of
             None \<Rightarrow> Inl ParseFault
           | Some h1 \<Rightarrow> Inr (Some (strip h1, base_url @ strip href))))"

definition art_key :: "article_element \<Rightarrow> error + (string \<times> string) option" where
  "art_key article =
     (case art_h1_text article of
        None \<Rightarrow> Inr None
      | Some h1 \<Rightarrow>
          (case art_a_href article of
             None \<Rightarrow> Inl ParseFault
           | Some href \<Rightarrow> Inr (Some (strip h1, base_url @ strip href))))"

text \<open>
  A candidate is settled in a session when the lookup of its pair finds exactly one
  object; a candidate without a heading (videos) is settled anywhere, one that cannot
  be read nowhere.
\<close>

definition key_count :: "string \<times> string \<Rightarrow> ('z item_scheme) session \<Rightarrow> nat" where
  "key_count k s = length (filter (\<lambda>x. dedup_key x = k) (all_objs s))"

definition settled ::
  "('c \<Rightarrow> error + (string \<times> string) option) \<Rightarrow> ('z item_scheme) session \<Rightarrow> 'c \<Rightarrow> bool" where
  "settled ckey s c =
     (case ckey c of Inl e \<Rightarrow> False | Inr None \<Rightarrow> True | Inr (Some k) \<Rightarrow> key_count k s = 1)"

section \<open>Table definitions\<close>

datatype coltype = SA_Integer | SA_String | SA_DateTime | SA_URLType | SA_EmailType | SA_BLOB

record column =
  col_name :: string
  col_type :: coltype
  primary_key :: bool
  nullable :: bool
  unique :: bool

text \<open>
  \<open>Table(name, metadata, *columns)\<close>; \<open>table_constraints\<close> holds the columns of each
  \<open>UniqueConstraint\<close> passed to it. Neither content table is given any.
\<close>

record table_def =
  table_name :: string
  columns :: "column list"
  table_constraints :: "string list list"

definition minisodes_table :: table_def where
  "minisodes_table =
     \<lparr>table_name = ''minisodes'',
      columns =
        [\<lparr>col_name = ''minisode_id'', col_type = SA_Integer, primary_key = True, nullable = False, unique = False\<rparr>,
         \<lparr>col_name = ''title'', col_type = SA_String, primary_key = False, nullable = False, unique = False\<rparr>,
         \<lparr>col_name = ''description'', col_type = SA_String, primary_key = False, nullable = False, unique = False\<rparr>,
         \<lparr>col_name = ''date'', col_type = SA_DateTime, primary_key = False, nullable = False, unique = False\<rparr>,
         \<lparr>col_name = ''url'', col_type = SA_URLType, primary_key = False, nullable = False, unique = False\<rparr>,
         \<lparr>col_name = ''image'', col_type = SA_URLType, primary_key = False, nullable = False, unique = False\<rparr>,
         \<lparr>col_name = ''audio'', col_type = SA_URLType, primary_key = False, nullable = False, unique = False\<rparr>,
         \<lparr>col_name = ''last_updated'', col_type = SA_DateTime, primary_key = False, nullable = False, unique = False\<rparr>],
      table_constraints = []\<rparr>"

definition videos_table :: table_def where
  "videos_table =
     \<lparr>table_name = ''videos'',
      columns =
        [\<lparr>col_name = ''video_id'', col_type = SA_Integer, primary_key = True, nullable = False, unique = False\<rparr>,
         \<lparr>col_name = ''title'', col_type = SA_String, primary_key = False, nullable = False, unique = False\<rparr>,
         \<lparr>col_name = ''type'', col_type = SA_String, primary_key = False, nullable = False, unique = False\<rparr>,
         \<lparr>col_name = ''date'', col_type = SA_DateTime, primary_key = False, nullable = False, unique = False\<rparr>,
         \<lparr>col_name = ''url'', col_type = SA_URLType, primary_key = False, nullable = False, unique = False\<rparr>,
         \<lparr>col_name = ''image'', col_type = SA_URLType, primary_key = False, nullable = False, unique = False\<rparr>,
         \<lparr>col_name = ''video'', col_type = SA_URLType, primary_key = False, nullable = False, unique = False\<rparr>,
         \<lparr>col_name = ''video_image'', col_type = SA_URLType, primary_key = False, nullable = False, unique = False\<rparr>,
         \<lparr>col_name = ''last_updated'', col_type = SA_DateTime, primary_key = False, nullable = False, unique = False\<rparr>],
      table_constraints = []\<rparr>"

definition account_table :: table_def where
  "account_table =
     \<lparr>table_name = ''account'',
      columns =
        [\<lparr>col_name = ''username'', col_type = SA_EmailType, primary_key = True, nullable = False, unique = True\<rparr>,
         \<lparr>col_name = ''password'', col_type = SA_BLOB, primary_key = False, nullable = False, unique = False\<rparr>,
         \<lparr>col_name = ''download_dir'', col_type = SA_String, primary_key = False, nullable = True, unique = False\<rparr>,
         \<lparr>col_name = ''last_updated'', col_type = SA_DateTime, primary_key = False, nullable = False, unique = False\<rparr>],
      table_constraints = []\<rparr>"

text \<open>
  The column sets the database keeps unique for a table: its primary key, every column
  declared \<open>unique\<close>, and every table-level unique constraint.
\<close>

definition unique_keys :: "table_def \<Rightarrow> string list list" where
  "unique_keys t =
     [map col_name (filter primary_key (columns t))]
       @ map (\<lambda>c. [col_name c]) (filter unique (columns t))
       @ table_constraints t"

section \<open>Ordering, filters and limits of queries\<close>

text \<open>
  \<open>order_by(date.asc())\<close> and \<open>order_by(date.desc())\<close> over rows in key order; rows
  of equal date keep their key order.
\<close>

definition order_by_date_asc :: "(nat \<times> 'z item_scheme) list \<Rightarrow> (nat \<times> 'z item_scheme) list" where
  "order_by_date_asc rows = sort_key (\<lambda>r. date (snd r)) rows"

definition order_by_date_desc :: "(nat \<times> 'z item_scheme) list \<Rightarrow> (nat \<times> 'z item_scheme) list" where
  "order_by_date_desc rows = sort_key (\<lambda>r. - date (snd r)) rows"

text \<open>\<open>LIMIT n\<close>: a negative bound is no bound.\<close>

definition sql_limit :: "int \<Rightarrow> 'r list \<Rightarrow> 'r list" where
  "sql_limit n rows = (if n < 0 then rows else take (nat n) rows)"

definition lower_char :: "char \<Rightarrow> char" where
  "lower_char c =
     (let n = (of_char c :: nat) in if 65 \<le> n \<and> n \<le> 90 then char_of (n + 32) else c)"

definition upper_char :: "char \<Rightarrow> char" where
  "upper_char c =
     (let n = (of_char c :: nat) in if 97 \<le> n \<and> n \<le> 122 then char_of (n - 32) else c)"

text \<open>
  The \<open>LIKE\<close> of the store: \<open>%\<close> matches any run of characters, \<open>_\<close> any one,
  and letters match without regard to case. The pattern comes first.
\<close>

fun like :: "string \<Rightarrow> string \<Rightarrow> bool" where
  "like [] s = (s = [])"
| "like (p # ps) [] = (p = CHR ''%'' \<and> like ps [])"
| "like (p # ps) (c # cs) =
     (if p = CHR ''%'' then like ps (c # cs) \<or> like (p # ps) cs
      else if p = CHR ''_'' then like ps cs
      else lower_char p = lower_char c \<and> like ps cs)"

definition contains_like :: "string \<Rightarrow> string \<Rightarrow> bool" where
  "contains_like needle s = like (''%'' @ needle @ ''%'') s"

text \<open>
  An option the caller may leave out: \<open>if search:\<close> takes the filter only for a
  given, non-empty text.
\<close>

definition given :: "string option \<Rightarrow> bool" where
  "given x = (case x of None \<Rightarrow> False | Some v \<Rightarrow> v \<noteq> [])"

section \<open>Console, files and directories\<close>

datatype cell = Cell_int nat | Cell_str string

record tabulated =
  headers :: "string list"
  table_data :: "cell list list"
  tablefmt :: string

record rss_entry =
  fe_id :: string
  fe_title :: string
  fe_description :: string
  fe_content :: "string option"
  fe_published :: int
  fe_link :: string
  fe_author :: "(string \<times> string) option"
  fe_enclosure :: "(string \<times> string option \<times> string option) option"
  fe_itunes_author :: "string option"
  fe_itunes_image :: "string option"
  fe_media_thumbnail :: "string option"
  fe_media_content :: "string option"

text \<open>
  The feed generator: the channel's fields and the entries, in the order in which the
  generator holds them, which is the order in which the serialised document lists them.
\<close>

record rss_feed =
  fg_title :: string
  fg_subtitle :: string
  fg_author :: "string \<times> string"
  fg_copyright :: string
  fg_logo :: string
  fg_link :: string
  fg_language :: string
  fg_podcast :: "(string \<times> (string \<times> string) \<times> string) option"
  fg_media :: bool
  fg_entries :: "rss_entry list"

datatype out =
    Warning string
  | Failure string
  | Success string
  | Info string
  | Echo string
  | Prompted string
  | Echo_table tabulated
  | Echo_rss rss_feed

text \<open>
  \<open>Warning\<close>, \<open>Failure\<close>, \<open>Success\<close> and \<open>Info\<close> are the manager's
  \<open>warning\<close>, \<open>error\<close>, \<open>success\<close> and \<open>info\<close>; \<open>Echo\<close> is \<open>click.echo\<close>,
  \<open>Prompted\<close> the question of a prompt.
\<close>

datatype content = Media string | Rss rss_feed

record world =
  dirs :: "string set"
  files :: "string \<rightharpoonup> content"
  console :: "out list"

definition say :: "out \<Rightarrow> world \<Rightarrow> world" where
  "say m w = w\<lparr>console := console w @ [m]\<rparr>"

definition isdir :: "world \<Rightarrow> string \<Rightarrow> bool" where
  "isdir w p = (p \<in> dirs w)"

definition isfile :: "world \<Rightarrow> string \<Rightarrow> bool" where
  "isfile w p = (files w p \<noteq> None)"

text \<open>\<open>os.path.join\<close> and \<open>os.path.basename\<close> of two POSIX paths.\<close>

definition path_join :: "string \<Rightarrow> string \<Rightarrow> string" where
  "path_join a b =
     (if b \<noteq> [] \<and> hd b = CHR ''/'' then b
      else if a = [] \<or> last a = CHR ''/'' then a @ b
      else a @ ''/'' @ b)"

definition basename :: "string \<Rightarrow> string" where
  "basename p = rev (takeWhile (\<lambda>c. c \<noteq> CHR ''/'') (rev p))"

text \<open>
  The directories \<open>os.makedirs\<close> makes for a path: the path and each of its leading
  parts that ends before a separator. Paths are kept as written. It raises when the path
  is there already, and when the path or one of its leading parts is a regular file.
\<close>

fun dir_prefixes :: "string \<Rightarrow> string \<Rightarrow> string list" where
  "dir_prefixes pre [] = [pre]"
| "dir_prefixes pre (c # cs) =
     (if c = CHR ''/'' \<and> pre \<noteq> [] then [pre] else []) @ dir_prefixes (pre @ [c]) cs"

definition makedirs :: "string \<Rightarrow> world \<Rightarrow> error + world" where
  "makedirs p w =
     (if isfile w p \<or> isdir w p \<or> list_ex (isfile w) (dir_prefixes [] p) then Inl OSFault
      else Inr (w\<lparr>dirs := dirs w \<union> set (dir_prefixes [] p)\<rparr>))"

text \<open>\<open>os.path.dirname\<close> of a POSIX path.\<close>

definition dirname :: "string \<Rightarrow> string" where
  "dirname p =
     (let head = rev (dropWhile (\<lambda>c. c \<noteq> CHR ''/'') (rev p))
      in if head \<noteq> [] \<and> \<not> list_all (\<lambda>c. c = CHR ''/'') head
         then rev (dropWhile (\<lambda>c. c = CHR ''/'') (rev head)) else head)"

text \<open>Decimal digits of a number: \<open>str(n)\<close>.\<close>

fun str_nat :: "nat \<Rightarrow> string" where
  "str_nat n = (if n < 10 then [char_of (48 + n)] else str_nat (n div 10) @ [char_of (48 + n mod 10)])"

declare str_nat.simps [simp del]

definition capitalize :: "string \<Rightarrow> string" where
  "capitalize s = (case s of [] \<Rightarrow> [] | c # cs \<Rightarrow> upper_char c # map lower_char cs)"

section \<open>Accounts and login\<close>

record account =
  username :: string
  password :: string
  download_dir :: "string option"

text \<open>
  \<open>click.prompt\<close> with \<open>type=click.Choice(range(n))\<close> and \<open>default=0\<close>. Each
  reply is one line of input, and the question is put before each. The empty line takes
  the default, 0 (the one call has at least two choices). Input that ends aborts. What
  the prompt does with a line that is not empty is the library's conversion of the line
  against the choices, which the code gives as integers and not as text: depending on
  the version of the library the conversion raises, or refuses every line with a message
  after which the prompt asks again, or takes the line that spells a choice. The
  library is not among the sources at hand and its version is not fixed by the
  program, so the conversion is a parameter.
\<close>

datatype conversion = Accepted nat | Rejected string | Raised

fun click_prompt_choice ::
  "(nat \<Rightarrow> string \<Rightarrow> conversion) \<Rightarrow> string \<Rightarrow> nat \<Rightarrow> string list \<Rightarrow> world \<Rightarrow> (error + nat) \<times> world" where
  "click_prompt_choice convert question n [] w = (Inl Aborted, say (Prompted question) w)"
| "click_prompt_choice convert question n (reply # replies) w =
     (let w1 = say (Prompted question) w
      in if reply = [] then (Inr 0, w1)
         else (case convert n reply of
                 Accepted k \<Rightarrow> (Inr k, w1)
               | Rejected message \<Rightarrow>
                   click_prompt_choice convert question n replies (say (Echo (''Error: '' @ message)) w1)
               | Raised \<Rightarrow> (Inl ParseFault, w1)))"

definition account_lines :: "account list \<Rightarrow> out list" where
  "account_lines all_accounts =
     map (\<lambda>(idx, acct). Echo ('' ['' @ str_nat idx @ ''] '' @ username acct))
       (zip [0 ..< length all_accounts] all_accounts)"

text \<open>
  \<open>_get_account\<close>, over the rows of the account table; \<open>replies\<close> are the lines the
  user types at the prompt.
\<close>

definition get_account ::
  "(nat \<Rightarrow> string \<Rightarrow> conversion) \<Rightarrow> account list \<Rightarrow> string list \<Rightarrow> world \<Rightarrow> (error + account option) \<times> world" where
  "get_account convert all_accounts replies w =
     (case all_accounts of
        [] \<Rightarrow> (Inr None, say (Warning ''Please login to your account first.'') w)
      | [account] \<Rightarrow> (Inr (Some account), w)
      | _ \<Rightarrow>
          (let w1 = say (Echo ''Multiple accounts found:'') w;
               w2 = w1\<lparr>console := console w1 @ account_lines all_accounts\<rparr>
           in case click_prompt_choice convert (CHR 0x0A # ''Enter account number'')
                     (length all_accounts) replies w2 of
                (Inl e, w3) \<Rightarrow> (Inl e, w3)
              | (Inr user_idx, w3) \<Rightarrow>
                  (if user_idx < length all_accounts then (Inr (Some (all_accounts ! user_idx)), w3)
                   else (Inl ParseFault, w3))))"

definition login_url :: string where
  "login_url = base_url @ ''/login''"

text \<open>\<open>_make_login_request\<close>.\<close>

definition make_login_request :: "site \<Rightarrow> string \<Rightarrow> string \<Rightarrow> world \<Rightarrow> (error + bool) \<times> world" where
  "make_login_request st user pass w =
     (case login_form_action st of
        None \<Rightarrow> (Inl ParseFault, w)
      | Some action \<Rightarrow>
          (case login_post st (base_url @ action) user pass of
             None \<Rightarrow> (Inl TransportFault, w)
           | Some (Http_error ex) \<Rightarrow> (Inr False, say (Failure (''Unable to login: '' @ ex)) w)
           | Some (Login_json None) \<Rightarrow> (Inl ParseFault, w)
           | Some (Login_json (Some status)) \<Rightarrow>
               (if \<not> status then (Inr False, say (Failure ''Unable to login: invalid credentials'') w)
                else (Inr True, w))))"

text \<open>
  \<open>login_user\<close>: the account the session is authenticated as, or \<open>None\<close>.
  \<open>decode\<close> is the manager's, which is not part of the sources at hand.
\<close>

definition login_user ::
  "site \<Rightarrow> (string \<Rightarrow> string) \<Rightarrow> (nat \<Rightarrow> string \<Rightarrow> conversion) \<Rightarrow> account list \<Rightarrow> string list \<Rightarrow> world
     \<Rightarrow> (error + account option) \<times> world" where
  "login_user st decode convert all_accounts replies w =
     (case get_account convert all_accounts replies w of
        (Inl e, w1) \<Rightarrow> (Inl e, w1)
      | (Inr None, w1) \<Rightarrow> (Inr None, w1)
      | (Inr (Some account), w1) \<Rightarrow>
          (case make_login_request st (username account) (decode (password account)) w1 of
             (Inl e, w2) \<Rightarrow> (Inl e, w2)
           | (Inr success, w2) \<Rightarrow> (if \<not> success then (Inr None, w2) else (Inr (Some account), w2))))"

section \<open>Downloads\<close>

text \<open>\<open>_get_download_dir\<close>; \<open>model_name\<close> is the class's.\<close>

definition get_download_dir ::
  "string \<Rightarrow> string option \<Rightarrow> account \<Rightarrow> bool \<Rightarrow> world \<Rightarrow> (error + string) \<times> world" where
  "get_download_dir model_name dest account with_model w =
     (case (if given dest then dest else download_dir account) of
        None \<Rightarrow> (Inl ParseFault, w)
      | Some d \<Rightarrow>
          (let dest_dir = (if with_model then path_join d (capitalize model_name) else d)
           in if \<not> isdir w dest_dir
              then (case makedirs dest_dir w of
                      Inl e \<Rightarrow> (Inl e, w)
                    | Inr w' \<Rightarrow> (Inr dest_dir, w'))
              else (Inr dest_dir, w)))"

text \<open>
  \<open>_get_download_path\<close>; \<open>answer\<close> is what the user replies to \<open>click.confirm\<close>,
  when asked.
\<close>

definition already_exists :: "string \<Rightarrow> out" where
  "already_exists file_path = Warning (''File '' @ [CHR 0x22] @ file_path @ [CHR 0x22] @ '' already exists'')"

definition get_download_path ::
  "string \<Rightarrow> string \<Rightarrow> bool \<Rightarrow> bool \<Rightarrow> world \<Rightarrow> string option \<times> world" where
  "get_download_path base_path file_name yes answer w =
     (let file_path = path_join base_path file_name
      in if isfile w file_path
         then (None, say (already_exists file_path) w)
         else if \<not> yes
           then (let w1 = say (Prompted (''Download file to '' @ file_path @ ''?'')) w
                 in if \<not> answer then (None, w1) else (Some file_path, w1))
           else (Some file_path, say (Echo (''Downloading file to '' @ file_path)) w))"

text \<open>
  Opening a path for writing and writing the content. The empty path, a path that ends
  in a separator and a directory cannot be opened, nor can a path whose directory part
  is not a directory (the part that is empty is the working directory, the part made of
  separators the root).
\<close>

definition write_file :: "string \<Rightarrow> content \<Rightarrow> world \<Rightarrow> error + world" where
  "write_file file_path c w =
     (let d = dirname file_path
      in if file_path = [] \<or> last file_path = CHR ''/'' \<or> isdir w file_path
            \<or> (d \<noteq> [] \<and> \<not> list_all (\<lambda>c. c = CHR ''/'') d \<and> \<not> isdir w d)
         then Inl OSFault
         else Inr (w\<lparr>files := (files w)(file_path \<mapsto> c)\<rparr>))"

definition check_downloaded :: "string \<Rightarrow> world \<Rightarrow> world" where
  "check_downloaded file_path w =
     (if \<not> isfile w file_path then say (Failure (''Problem downloading file: '' @ file_path)) w else w)"

text \<open>\<open>_download_episode\<close>.\<close>

definition download_episode ::
  "site \<Rightarrow> nat \<times> minisode \<Rightarrow> string \<Rightarrow> bool \<Rightarrow> bool \<Rightarrow> world \<Rightarrow> (error + unit) \<times> world" where
  "download_episode st episode episode_path yes answer w =
     (let file_name = basename (audio (snd episode))
      in case get_download_path episode_path file_name yes answer w of
           (None, w1) \<Rightarrow> (Inr (), w1)
         | (Some file_path, w1) \<Rightarrow>
             (if file_path = [] then (Inr (), w1)
              else (case media_chunks st (audio (snd episode)) of
                      None \<Rightarrow> (Inl TransportFault, w1)
                    | Some chunks \<Rightarrow>
                        (case write_file file_path (Media (concat (filter (\<lambda>chunk. chunk \<noteq> []) chunks))) w1 of
                           Inl e \<Rightarrow> (Inl e, w1)
                         | Inr w2 \<Rightarrow> (Inr (), check_downloaded file_path w2)))))"

definition ends_with :: "string \<Rightarrow> string \<Rightarrow> bool" where
  "ends_with s suffix = (length suffix \<le> length s \<and> drop (length s - length suffix) s = suffix)"

definition apply_writes :: "(string \<times> string) list \<Rightarrow> world \<Rightarrow> world" where
  "apply_writes ws w = w\<lparr>files := fold (\<lambda>(p, bytes) m. m(p \<mapsto> Media bytes)) ws (files w)\<rparr>"

text \<open>
  \<open>_download_video\<close>, in two parts: resolving the stream and the name of the file
  (up to the name's \<open>.mp4\<close> ending), then the check of the path and the download.
\<close>

definition resolve_video_file :: "site \<Rightarrow> nat \<times> video_item \<Rightarrow> error + vimeo_stream \<times> string" where
  "resolve_video_file st v =
     (case get_video_metadata st (video (snd v)) of
        Inl e \<Rightarrow> Inl e
      | Inr video_metadata \<Rightarrow>
          need (video_metadata ''html'') (\<lambda>html.
          need (iframe_src st html) (\<lambda>src.
            (let video_src = takeWhile (\<lambda>c. c \<noteq> CHR ''?'') (strip src)
             in case vimeo_best_stream st video_src (url (snd v)) of
                  None \<Rightarrow> Inl TransportFault
                | Some stream \<Rightarrow>
                    Inr (stream,
                         if \<not> ends_with (stream_title stream) ''.mp4''
                         then stream_title stream @ ''.mp4'' else stream_title stream)))))"

definition download_video ::
  "site \<Rightarrow> nat \<times> video_item \<Rightarrow> string \<Rightarrow> bool \<Rightarrow> bool \<Rightarrow> world \<Rightarrow> (error + unit) \<times> world" where
  "download_video st v video_path yes answer w =
     (case resolve_video_file st v of
        Inl e \<Rightarrow> (Inl e, w)
      | Inr (stream, file_name) \<Rightarrow>
          (case get_download_path video_path file_name yes answer w of
             (None, w1) \<Rightarrow> (Inr (), w1)
           | (Some file_path, w1) \<Rightarrow>
               (if file_path = [] then (Inr (), w1)
                else (Inr (), check_downloaded file_path
                        (apply_writes (stream_download stream video_path) w1)))))"

text \<open>\<open>get_episode\<close> and \<open>get_video\<close>.\<close>

definition not_found :: "string \<Rightarrow> nat \<Rightarrow> out" where
  "not_found kind i = Failure (''No '' @ kind @ '' found for ID: '' @ str_nat i)"

definition get_episode ::
  "nat \<Rightarrow> minisode session \<Rightarrow> world \<Rightarrow> (nat \<times> minisode) option \<times> minisode session \<times> world" where
  "get_episode episode_id s w =
     (case db_get episode_id s of
        (None, s') \<Rightarrow> (None, s', say (not_found ''minisode'' episode_id) w)
      | (Some episode, s') \<Rightarrow> (Some episode, s', w))"

definition get_video ::
  "nat \<Rightarrow> video_item session \<Rightarrow> world \<Rightarrow> (nat \<times> video_item) option \<times> video_item session \<times> world" where
  "get_video video_id s w =
     (case db_get video_id s of
        (None, s') \<Rightarrow> (None, s', say (not_found ''video'' video_id) w)
      | (Some v, s') \<Rightarrow> (Some v, s', w))"

text \<open>The \<open>download\<close> commands, after login.\<close>

definition minisodes_download ::
  "site \<Rightarrow> nat \<Rightarrow> bool \<Rightarrow> string option \<Rightarrow> account \<Rightarrow> bool \<Rightarrow> minisode session \<Rightarrow> world
     \<Rightarrow> (error + unit) \<times> minisode session \<times> world" where
  "minisodes_download st minisode_id yes dest account answer s w =
     (case get_download_dir ''minisodes'' dest account True w of
        (Inl e, w1) \<Rightarrow> (Inl e, s, w1)
      | (Inr episode_path, w1) \<Rightarrow>
          (case get_episode minisode_id s w1 of
             (None, s1, w2) \<Rightarrow> (Inr (), s1, w2)
           | (Some episode, s1, w2) \<Rightarrow>
               (case download_episode st episode episode_path yes answer w2 of
                  (r, w3) \<Rightarrow> (r, s1, w3))))"

definition videos_download ::
  "site \<Rightarrow> nat \<Rightarrow> bool \<Rightarrow> string option \<Rightarrow> account \<Rightarrow> bool \<Rightarrow> video_item session \<Rightarrow> world
     \<Rightarrow> (error + unit) \<times> video_item session \<times> world" where
  "videos_download st video_id yes dest account answer s w =
     (case get_download_dir ''videos'' dest account True w of
        (Inl e, w1) \<Rightarrow> (Inl e, s, w1)
      | (Inr video_path, w1) \<Rightarrow>
          (case get_video video_id s w1 of
             (None, s1, w2) \<Rightarrow> (Inr (), s1, w2)
           | (Some v, s1, w2) \<Rightarrow>
               (case download_video st v video_path yes answer w2 of
                  (r, w3) \<Rightarrow> (r, s1, w3))))"

section \<open>Feeds\<close>

definition copyright_name :: string where
  "copyright_name = ''Exactly Right''"

definition copyright_email :: string where
  "copyright_email = ''exactlyrightmedia@gmail.com''"

definition logo :: string where
  "logo = ''https://emorel.li/dl/fc_logo.png''"

text \<open>\<open>_get_rss_feed_generator\<close>; \<open>now_year\<close> is \<open>datetime.now().year\<close>.\<close>

definition get_rss_feed_generator :: "string \<Rightarrow> nat \<Rightarrow> bool \<Rightarrow> rss_feed" where
  "get_rss_feed_generator model_name now_year podcast =
     \<lparr>fg_title = ''MFM Fan Cult '' @ capitalize model_name,
      fg_subtitle = ''Generated feed of Fan Cult exclusive '' @ model_name @ ''.'',
      fg_author = (copyright_name, copyright_email),
      fg_copyright = str_nat now_year @ '' '' @ copyright_name,
      fg_logo = logo,
      fg_link = base_url,
      fg_language = ''en'',
      fg_podcast = (if podcast then Some (copyright_name, (copyright_name, copyright_email), logo) else None),
      fg_media = False,
      fg_entries = []\<rparr>"

definition episode_entry :: "nat \<times> minisode \<Rightarrow> string option \<Rightarrow> string option \<Rightarrow> rss_entry" where
  "episode_entry episode audio_type audio_length =
     \<lparr>fe_id = str_nat (fst episode),
      fe_title = title (snd episode),
      fe_description = description (snd episode),
      fe_content = None,
      fe_published = date (snd episode),
      fe_link = url (snd episode),
      fe_author = None,
      fe_enclosure = Some (audio (snd episode), audio_length, audio_type),
      fe_itunes_author = Some ''Exactly Right'',
      fe_itunes_image = Some (image (snd episode)),
      fe_media_thumbnail = None,
      fe_media_content = None\<rparr>"

text \<open>
  The feed library is not among the sources at hand. Three of its behaviours bear on
  what the feed functions do. \<open>add_entry()\<close>, called as the code calls it, with no
  order given, puts the new entry before the entries the generator holds already.
  \<open>podcast.itunes_image\<close> of an entry raises on an address it does not take for an
  image's; which addresses it takes is the library's, \<open>itunes_image_ok\<close>. The
  serialiser behind \<open>rss_str\<close> and \<open>rss_file\<close> raises on an enclosure that has no
  type, and it may refuse a feed on grounds of its own (a required field left empty, a
  character the format does not allow); \<open>rss_ok\<close> says of a feed whether it passes
  those.
\<close>

record feedgen =
  itunes_image_ok :: "string \<Rightarrow> bool"
  rss_ok :: "rss_feed \<Rightarrow> bool"

definition add_entry :: "rss_entry \<Rightarrow> rss_feed \<Rightarrow> rss_feed" where
  "add_entry fe fg = fg\<lparr>fg_entries := fe # fg_entries fg\<rparr>"



text \<open>
  The loop over the episodes: one HEAD request and one entry each, added to the
  generator as it goes.
\<close>

fun episode_entries ::
  "feedgen \<Rightarrow> site \<Rightarrow> (nat \<times> minisode) list \<Rightarrow> rss_feed \<Rightarrow> error + rss_feed" where
  "episode_entries lib st [] fg = Inr fg"
| "episode_entries lib st (episode # episodes) fg =
     (case head_headers st (audio (snd episode)) of
        None \<Rightarrow> Inl TransportFault
      | Some (audio_type, audio_length) \<Rightarrow>
          (if \<not> itunes_image_ok lib (image (snd episode)) then Inl ParseFault
           else episode_entries lib st episodes
                  (add_entry (episode_entry episode audio_type audio_length) fg)))"

text \<open>
  \<open>_create_episode_feed\<close>, in two parts: \<open>episode_feed\<close> fills the generator from
  the stored rows, \<open>emit_feed\<close> is the output that ends both feed functions. The
  serialiser runs before anything is echoed or any file is opened.
\<close>

definition episode_feed ::
  "feedgen \<Rightarrow> site \<Rightarrow> nat \<Rightarrow> minisode session \<Rightarrow> (error + rss_feed) \<times> minisode session" where
  "episode_feed lib st now_year s =
     (let fg = get_rss_feed_generator ''minisodes'' now_year True;
          (rows, s1) = db_query s;
          episodes = order_by_date_asc rows
      in (episode_entries lib st episodes fg, s1))"



definition video_entry :: "nat \<times> video_item \<Rightarrow> rss_entry" where
  "video_entry v =
     \<lparr>fe_id = str_nat (fst v),
      fe_title = title (snd v),
      fe_description = vtype (snd v),
      fe_content =
        Some (''<p>'' @ vtype (snd v) @ ''</p><p><a href='' @ [CHR 0x22] @ url (snd v) @ [CHR 0x22]
              @ ''><img src='' @ [CHR 0x22] @ video_image (snd v) @ [CHR 0x22] @ ''/></a></p>''),
      fe_published = date (snd v),
      fe_link = url (snd v),
      fe_author = Some (copyright_name, copyright_email),
      fe_enclosure = None,
      fe_itunes_author = None,
      fe_itunes_image = None,
      fe_media_thumbnail = Some (image (snd v)),
      fe_media_content = Some (video (snd v))\<rparr>"

text \<open>\<open>_create_video_feed\<close>, likewise.\<close>

definition video_feed :: "nat \<Rightarrow> int \<Rightarrow> video_item session \<Rightarrow> rss_feed \<times> video_item session" where
  "video_feed now_year limit s =
     (let fg = (get_rss_feed_generator ''videos'' now_year False)\<lparr>fg_media := True\<rparr>;
          (rows, s1) = db_query s;
          videos = sql_limit limit (order_by_date_desc rows)
      in (fold (\<lambda>v. add_entry (video_entry v)) videos fg, s1))"



definition option_default :: "'a \<Rightarrow> 'a option \<Rightarrow> 'a" where
  "option_default d x = (case x of None \<Rightarrow> d | Some v \<Rightarrow> v)"


section \<open>Listings\<close>

text \<open>
  \<open>format_episode_list\<close> and \<open>format_video_list\<close>: the headers and rows handed to
  \<open>tabulate\<close>. \<open>strftime\<close> and \<open>shorten\<close> are the libraries'.
\<close>

definition format_episode_list ::
  "(int \<Rightarrow> string \<Rightarrow> string) \<Rightarrow> (string \<Rightarrow> nat \<Rightarrow> string) \<Rightarrow> (nat \<times> minisode) list \<Rightarrow> string \<Rightarrow> tabulated" where
  "format_episode_list strftime shorten episodes fmt =
     (let fields = [''ID'', ''Title'', ''Description'', ''Date'', ''URL''];
          rows = map (\<lambda>episode.
                   [Cell_int (fst episode),
                    Cell_str (strftime (date (snd episode)) ''%d %B %Y''),
                    Cell_str (title (snd episode)),
                    Cell_str (shorten (description (snd episode)) 50),
                    Cell_str (shorten (url (snd episode)) 50)]) episodes
      in \<lparr>headers = fields, table_data = rows, tablefmt = fmt\<rparr>)"

definition format_video_list ::
  "(int \<Rightarrow> string \<Rightarrow> string) \<Rightarrow> (string \<Rightarrow> nat \<Rightarrow> string) \<Rightarrow> (nat \<times> video_item) list \<Rightarrow> string \<Rightarrow> tabulated" where
  "format_video_list strftime shorten videos fmt =
     (let fields = [''ID'', ''Date'', ''Title'', ''Type'', ''URL''];
          rows = map (\<lambda>v.
                   [Cell_int (fst v),
                    Cell_str (strftime (date (snd v)) ''%d %B %Y''),
                    Cell_str (shorten (title (snd v)) 50),
                    Cell_str (vtype (snd v)),
                    Cell_str (shorten (url (snd v)) 50)]) videos
      in \<lparr>headers = fields, table_data = rows, tablefmt = fmt\<rparr>)"

text \<open>The query of the minisode listing, for the number and the search text given.\<close>

definition episode_matches :: "string option \<Rightarrow> nat \<times> minisode \<Rightarrow> bool" where
  "episode_matches search r =
     (case search of
        None \<Rightarrow> True
      | Some q \<Rightarrow> q = [] \<or> contains_like q (title (snd r)) \<or> contains_like q (description (snd r)))"

definition minisodes_list_query :: "int \<Rightarrow> string option \<Rightarrow> (nat \<times> minisode) list \<Rightarrow> (nat \<times> minisode) list" where
  "minisodes_list_query number search rows =
     (let ordered = order_by_date_desc (filter (episode_matches search) rows)
      in if number > 0 then sql_limit number ordered else ordered)"

definition video_matches :: "string option \<Rightarrow> string option \<Rightarrow> nat \<times> video_item \<Rightarrow> bool" where
  "video_matches vtype_filter search r =
     ((case vtype_filter of None \<Rightarrow> True | Some t \<Rightarrow> t = [] \<or> contains_like t (vtype (snd r)))
      \<and> (case search of None \<Rightarrow> True | Some q \<Rightarrow> q = [] \<or> contains_like q (title (snd r))))"

definition videos_list_query ::
  "int \<Rightarrow> string option \<Rightarrow> string option \<Rightarrow> (nat \<times> video_item) list \<Rightarrow> (nat \<times> video_item) list" where
  "videos_list_query number vtype_filter search rows =
     (let ordered = order_by_date_desc (filter (video_matches vtype_filter search) rows)
      in if number > 0 then sql_limit number ordered else ordered)"

text \<open>
  The \<open>list\<close> commands, after login: \<open>--number\<close> defaults to 10 and \<open>--format\<close> to
  \<open>psql\<close>.
\<close>

definition minisodes_list ::
  "site \<Rightarrow> (int \<Rightarrow> string \<Rightarrow> string) \<Rightarrow> (string \<Rightarrow> nat \<Rightarrow> string) \<Rightarrow> int option \<Rightarrow> bool \<Rightarrow> string option
     \<Rightarrow> string option \<Rightarrow> minisode session \<Rightarrow> world \<Rightarrow> (error + unit) \<times> minisode session \<times> world" where
  "minisodes_list st strftime shorten number_opt refresh fmt_opt search s w =
     (let number = option_default 10 number_opt; fmt = option_default ''psql'' fmt_opt
      in case (if refresh then update_episodes st s else (Inr [], s)) of
           (Inl e, s1) \<Rightarrow> (Inl e, s1, w)
         | (Inr added, s1) \<Rightarrow>
             (let (rows, s2) = db_query s1;
                  episodes = minisodes_list_query number search rows
              in if episodes = [] then (Inr (), s2, say (Warning ''No minisodes found.'') w)
                 else (Inr (), s2, say (Echo_table (format_episode_list strftime shorten episodes fmt)) w)))"

definition videos_list ::
  "site \<Rightarrow> (int \<Rightarrow> string \<Rightarrow> string) \<Rightarrow> (string \<Rightarrow> nat \<Rightarrow> string) \<Rightarrow> int option \<Rightarrow> bool \<Rightarrow> string option
     \<Rightarrow> string option \<Rightarrow> string option \<Rightarrow> video_item session \<Rightarrow> world
     \<Rightarrow> (error + unit) \<times> video_item session \<times> world" where
  "videos_list st strftime shorten number_opt refresh fmt_opt vtype_filter search s w =
     (let number = option_default 10 number_opt; fmt = option_default ''psql'' fmt_opt
      in case (if refresh then update_videos st 100 s else (Inr [], s)) of
           (Inl e, s1) \<Rightarrow> (Inl e, s1, w)
         | (Inr added, s1) \<Rightarrow>
             (let (rows, s2) = db_query s1;
                  videos = videos_list_query number vtype_filter search rows
              in if videos = [] then (Inr (), s2, say (Warning ''No videos found.'') w)
                 else (Inr (), s2, say (Echo_table (format_video_list strftime shorten videos fmt)) w)))"

text \<open>
  The cells a table shows under a header: \<open>tabulate\<close> lays each row's values out
  under the headers by position.
\<close>

definition cells_under :: "tabulated \<Rightarrow> string \<Rightarrow> cell list" where
  "cells_under t h =
     concat (map (\<lambda>row. map snd (filter (\<lambda>hc. fst hc = h) (zip (headers t) row))) (table_data t))"

text \<open>The tables a console has been shown, by their numbers of rows.\<close>

definition table_sizes :: "world \<Rightarrow> nat list" where
  "table_sizes w =
     concat (map (\<lambda>m. case m of Echo_table t \<Rightarrow> [length (table_data t)] | _ \<Rightarrow> []) (console w))"


section \<open>A small site and store, for the worked instances\<close>

definition ex_ep :: ep_element where
  "ex_ep = \<lparr>ep_a_href = Some ''/episodes/one '', ep_h1_text = Some '' Minisode 1'', ep_date = Some 100\<rparr>"

definition ex_page :: episode_page where
  "ex_page = \<lparr>about_p_text = Some ''Hometowns '', about_img_src = Some ''https://img.test/1.png'',
            script_m4a = Some ''https://cdn.test/audio/one.m4a''\<rparr>"

definition ex_minisode :: minisode where
  "ex_minisode = \<lparr>title = ''Minisode 1'', date = 100, url = ''https://myfavoritemurder.com/episodes/one'',
         image = ''https://img.test/1.png'', description = ''Hometowns'',
         audio = ''https://cdn.test/audio/one.m4a''\<rparr>"

definition ex_article :: article_element where
  "ex_article = \<lparr>art_h1_text = Some ''Live Show'', art_a_href = Some ''/news/live'',
           art_h6_parts = Some (''June 1, 2021'', ''Video''), art_date = Some 200,
           art_data_vimeo = Some ''https://vimeo.com/1''\<rparr>"

definition ex_video :: video_item where
  "ex_video = \<lparr>title = ''Live Show'', date = 200, url = ''https://myfavoritemurder.com/news/live'',
         image = ''https://img.test/t.png'', vtype = ''Video'', video = ''https://vimeo.com/1'',
         video_image = ''https://img.test/tp.png''\<rparr>"

definition ex_stream :: vimeo_stream where
  "ex_stream = \<lparr>stream_title = ''Live Show'',
              stream_download = (\<lambda>d. [(path_join d ''Live Show.mp4'', ''vv'')])\<rparr>"

definition ex_site :: site where
  "ex_site =
     \<lparr>episodes_listing = Some [ex_ep, ex_ep],
      episode_pages = (\<lambda>u. if u = ''https://myfavoritemurder.com/episodes/one'' then Some ex_page else None),
      news_listing = (\<lambda>n. Some [ex_article, ex_article]),
      vimeo_oembed = (\<lambda>u. Some [''thumbnail_url'' \<mapsto> ''https://img.test/t.png'',
                                 ''thumbnail_url_with_play_button'' \<mapsto> ''https://img.test/tp.png'',
                                 ''html'' \<mapsto> ''<iframe>'']),
      head_headers = (\<lambda>u. Some (Some ''audio/mp4'', Some ''4'')),
      media_chunks = (\<lambda>u. Some [''ab'', [], ''cd'']),
      iframe_src = (\<lambda>h. Some ''https://player.vimeo.com/video/1?app_id=1''),
      vimeo_best_stream = (\<lambda>src page. Some ex_stream),
      login_form_action = Some ''/login/submit'',
      login_post = (\<lambda>u n p. Some (Login_json (Some True)))\<rparr>"

definition ex_empty :: "minisode session" where
  "ex_empty = new_session [] True"

definition ex_store :: "minisode session" where
  "ex_store = new_session [(1, ex_minisode)] True"

definition ex_vempty :: "video_item session" where
  "ex_vempty = new_session [] True"

definition ex_vstore :: "video_item session" where
  "ex_vstore = new_session [(1, ex_video)] True"

definition ex_account :: account where
  "ex_account = \<lparr>username = ''a@mfm.test'', password = ''x'', download_dir = Some ''/home/u''\<rparr>"

definition ex_account2 :: account where
  "ex_account2 = \<lparr>username = ''b@mfm.test'', password = ''y'', download_dir = Some ''/home/v''\<rparr>"

definition ex_world :: world where
  "ex_world = \<lparr>dirs = {''/home'', ''/home/u''}, files = Map.empty, console = []\<rparr>"

definition ex_world_full :: world where
  "ex_world_full =
     \<lparr>dirs = {''/home'', ''/home/u'', ''/home/u/Minisodes'', ''/home/u/Videos''},
      files = [''/home/u/Minisodes/one.m4a'' \<mapsto> Media ''old'',
               ''/home/u/Videos/Live Show.mp4'' \<mapsto> Media ''old''],
      console = []\<rparr>"

definition ex_eleven :: "minisode session" where
  "ex_eleven = new_session (map (\<lambda>i. (i, ex_minisode)) [1, 2, 3, 4, 5, 6, 7, 8, 9, 10, 11]) True"

definition ex_later :: minisode where
  "ex_later = \<lparr>title = ''Minisode 2'', date = 300, url = ''https://myfavoritemurder.com/episodes/two'',
         image = ''https://img.test/2.png'', description = ''More hometowns'',
         audio = ''https://cdn.test/audio/two.m4a''\<rparr>"

definition ex_pair :: "minisode session" where
  "ex_pair = new_session [(1, ex_later), (2, ex_minisode)] True"

definition ex_feed :: rss_feed where
  "ex_feed = (get_rss_feed_generator ''minisodes'' 2021 True)
     \<lparr>fg_entries := [episode_entry (1, ex_later) (Some ''audio/mp4'') (Some ''4''),
                     episode_entry (2, ex_minisode) (Some ''audio/mp4'') (Some ''4'')]\<rparr>"

definition ex_feedgen :: feedgen where
  "ex_feedgen = \<lparr>itunes_image_ok = (\<lambda>u. ends_with u ''.png'' \<or> ends_with u ''.jpg''),
                 rss_ok = (\<lambda>fg. True)\<rparr>"

definition ex_choice :: "nat \<Rightarrow> string \<Rightarrow> conversion" where
  "ex_choice n reply = Rejected ''invalid choice''"

definition ex_vlater :: video_item where
  "ex_vlater = \<lparr>title = ''Tour Diary'', date = 400, url = ''https://myfavoritemurder.com/news/tour'',
         image = ''https://img.test/t2.png'', vtype = ''Video'', video = ''https://vimeo.com/2'',
         video_image = ''https://img.test/tp2.png''\<rparr>"

definition ex_vpair :: "video_item session" where
  "ex_vpair = new_session [(1, ex_video), (2, ex_vlater)] True"


section \<open>Facts about the session\<close>

lemma map_snd_assign_ids [simp]: "map snd (assign_ids n xs) = xs"
  by (induction xs arbitrary: n) auto

lemma all_objs_flush [simp]: "all_objs (db_flush s) = all_objs s"
  by (simp add: all_objs_def db_flush_def)

lemma all_objs_commit [simp]: "all_objs (db_commit s) = all_objs s"
  by (simp add: all_objs_def db_commit_def db_flush_def Let_def)

lemma all_objs_add [simp]: "all_objs (db_add x s) = all_objs s @ [x]"
  by (simp add: all_objs_def db_add_def)

lemma stored_flush [simp]: "stored (db_flush s) = stored s"
  by (simp add: db_flush_def)

lemma stored_add [simp]: "stored (db_add x s) = stored s"
  by (simp add: db_add_def)

lemma autoflush_flush [simp]: "autoflush (db_flush s) = autoflush s"
  by (simp add: db_flush_def)

lemma autoflush_add [simp]: "autoflush (db_add x s) = autoflush s"
  by (simp add: db_add_def)

lemma autoflush_commit [simp]: "autoflush (db_commit s) = autoflush s"
  by (simp add: db_commit_def db_flush_def Let_def)

lemma db_query_state:
  "db_query s = (rows, s') \<Longrightarrow> stored s' = stored s \<and> all_objs s' = all_objs s \<and> autoflush s' = autoflush s"
  by (auto simp: db_query_def Let_def split: if_splits)

lemma db_query_rows:
  "autoflush s \<Longrightarrow> db_query s = (rows, s') \<Longrightarrow> map snd rows = all_objs s"
  by (auto simp: db_query_def Let_def all_objs_def db_flush_def)

lemma find_state:
  "find_by_title_url t u s = (r, s') \<Longrightarrow> stored s' = stored s \<and> all_objs s' = all_objs s \<and> autoflush s' = autoflush s"
  by (auto simp: find_by_title_url_def Let_def split: prod.splits dest: db_query_state)

lemma length_filter_snd:
  "length (filter (\<lambda>r. P (snd r)) rows) = length (filter P (map snd rows))"
  by (induction rows) auto

lemma one_or_none_length:
  "length rows = n \<Longrightarrow>
   (case one_or_none rows of Inl e \<Rightarrow> 1 < n | Inr None \<Rightarrow> n = 0 | Inr (Some x) \<Rightarrow> n = 1)"
  by (auto simp: one_or_none_def split: list.splits)

lemma find_count:
  assumes "autoflush s" "find_by_title_url t u s = (r, s')"
  shows "(case r of Inl e \<Rightarrow> 1 < key_count (t, u) s | Inr None \<Rightarrow> key_count (t, u) s = 0
          | Inr (Some x) \<Rightarrow> key_count (t, u) s = 1)"
proof -
  obtain rows where q: "db_query s = (rows, s')" and r: "r = one_or_none (filter (\<lambda>r. title (snd r) = t \<and> url (snd r) = u) rows)"
    using assms(2) by (auto simp: find_by_title_url_def Let_def split: prod.splits)
  have "length (filter (\<lambda>r. title (snd r) = t \<and> url (snd r) = u) rows) = key_count (t, u) s"
    using db_query_rows[OF assms(1) q] length_filter_snd[of "\<lambda>x. title x = t \<and> url x = u" rows]
    by (simp add: key_count_def dedup_key_def)
  then show ?thesis unfolding r
    by (rule one_or_none_length)
qed

lemma create_episode_item: "create_episode st = create_item ep_key (build_episode st)"
  by (auto simp: fun_eq_iff create_episode_def create_item_def ep_key_def find_episode_def Let_def split: option.splits)

lemma create_video_item: "create_video st = create_item art_key (build_video st)"
  by (auto simp: fun_eq_iff create_video_def create_item_def art_key_def find_video_def Let_def split: option.splits)

lemma build_episode_key: "build_episode st ep t u = Inr obj \<Longrightarrow> title obj = t \<and> url obj = u"
  by (auto simp: build_episode_def need_def split: option.splits)

lemma build_video_key: "build_video st a t u = Inr obj \<Longrightarrow> title obj = t \<and> url obj = u"
  by (auto simp: build_video_def need_def split: option.splits sum.splits prod.splits)


lemma key_count_objs: "all_objs s' = all_objs s \<Longrightarrow> key_count k s' = key_count k s"
  by (simp add: key_count_def)

lemma settled_objs: "all_objs s' = all_objs s \<Longrightarrow> settled ckey s' c = settled ckey s c"
  by (simp add: settled_def key_count_def split: sum.splits option.splits)

lemma key_count_add:
  "key_count k (db_add obj s) = key_count k s + (if dedup_key obj = k then 1 else 0)"
  by (simp add: key_count_def)

lemma create_item_state:
  "create_item ckey build c s = (r, s') \<Longrightarrow>
     stored s' = stored s \<and> all_objs s' = all_objs s \<and> autoflush s' = autoflush s"
  by (auto simp: create_item_def split: sum.splits option.splits prod.splits dest: find_state)

lemma create_item_new:
  assumes "autoflush s"
    and "\<And>c t u obj. build c t u = Inr obj \<Longrightarrow> title obj = t \<and> url obj = u"
    and "create_item ckey build c s = (Inr (Some obj), s')"
  shows "ckey c = Inr (Some (dedup_key obj)) \<and> key_count (dedup_key obj) s = 0"
proof -
  obtain t u where k: "ckey c = Inr (Some (t, u))"
    using assms(3) by (auto simp: create_item_def split: sum.splits option.splits)
  obtain r s1 where f: "find_by_title_url t u s = (r, s1)" by (cases "find_by_title_url t u s")
  from assms(3) k f have r: "r = Inr None" and b: "build c t u = Inr obj"
    by (auto simp: create_item_def split: sum.splits option.splits)
  from assms(2)[OF b] have "dedup_key obj = (t, u)" by (simp add: dedup_key_def)
  moreover from find_count[OF assms(1) f] r have "key_count (t, u) s = 0" by simp
  ultimately show ?thesis using k by simp
qed

lemma create_item_skip:
  assumes "autoflush s" and "create_item ckey build c s = (Inr None, s')"
  shows "settled ckey s c"
proof (cases "ckey c")
  case (Inl e)
  with assms(2) show ?thesis by (simp add: create_item_def)
next
  case (Inr ko)
  show ?thesis
  proof (cases ko)
    case None
    with Inr show ?thesis by (simp add: settled_def)
  next
    case (Some k)
    obtain t u where tu: "k = (t, u)" by (cases k)
    obtain r s1 where f: "find_by_title_url t u s = (r, s1)" by (cases "find_by_title_url t u s")
    from assms(2) Inr Some tu f have "\<exists>x. r = Inr (Some x)"
      by (auto simp: create_item_def split: sum.splits option.splits)
    with find_count[OF assms(1) f] have "key_count (t, u) s = 1" by auto
    with Inr Some tu show ?thesis by (simp add: settled_def)
  qed
qed

lemma create_item_settled:
  assumes "autoflush s" and "settled ckey s c"
  shows "fst (create_item ckey build c s) = Inr None"
proof (cases "ckey c")
  case (Inl e)
  with assms(2) show ?thesis by (simp add: settled_def)
next
  case (Inr ko)
  show ?thesis
  proof (cases ko)
    case None
    with Inr show ?thesis by (simp add: create_item_def)
  next
    case (Some k)
    obtain t u where tu: "k = (t, u)" by (cases k)
    obtain r s1 where f: "find_by_title_url t u s = (r, s1)" by (cases "find_by_title_url t u s")
    from assms(2) Inr Some tu have "key_count (t, u) s = 1" by (simp add: settled_def)
    with find_count[OF assms(1) f] have "\<exists>x. r = Inr (Some x)"
      by (auto split: sum.splits option.splits)
    with Inr Some tu f show ?thesis by (auto simp: create_item_def)
  qed
qed

lemma loop_stored:
  "update_loop (create_item ckey build) cs added s = (r, s') \<Longrightarrow>
     stored s' = stored s \<and> autoflush s' = autoflush s"
proof (induction cs arbitrary: added s)
  case Nil
  then show ?case by simp
next
  case (Cons c cs)
  obtain r1 s1 where c1: "create_item ckey build c s = (r1, s1)" by (cases "create_item ckey build c s")
  note st = create_item_state[OF c1]
  show ?case
  proof (cases r1)
    case (Inl e)
    with Cons.prems c1 st show ?thesis by simp
  next
    case (Inr o1)
    show ?thesis
    proof (cases o1)
      case None
      with Cons.prems c1 Inr have "update_loop (create_item ckey build) cs added s1 = (r, s')" by simp
      from Cons.IH[OF this] st show ?thesis by simp
    next
      case (Some obj)
      with Cons.prems c1 Inr
      have "update_loop (create_item ckey build) cs (added @ [obj]) (db_add obj s1) = (r, s')" by simp
      from Cons.IH[OF this] st show ?thesis by simp
    qed
  qed
qed

lemma loop_objs:
  "update_loop (create_item ckey build) cs added s = (Inr res, s') \<Longrightarrow>
     \<exists>new. res = added @ new \<and> all_objs s' = all_objs s @ new"
proof (induction cs arbitrary: added s)
  case Nil
  then show ?case by simp
next
  case (Cons c cs)
  obtain r1 s1 where c1: "create_item ckey build c s = (r1, s1)" by (cases "create_item ckey build c s")
  note st = create_item_state[OF c1]
  show ?case
  proof (cases r1)
    case (Inl e)
    with Cons.prems c1 show ?thesis by simp
  next
    case (Inr o1)
    show ?thesis
    proof (cases o1)
      case None
      with Cons.prems c1 Inr have "update_loop (create_item ckey build) cs added s1 = (Inr res, s')" by simp
      from Cons.IH[OF this] st show ?thesis by simp
    next
      case (Some obj)
      with Cons.prems c1 Inr
      have "update_loop (create_item ckey build) cs (added @ [obj]) (db_add obj s1) = (Inr res, s')" by simp
      from Cons.IH[OF this] obtain new where "res = (added @ [obj]) @ new"
        "all_objs s' = all_objs (db_add obj s1) @ new" by blast
      with st have "res = added @ (obj # new) \<and> all_objs s' = all_objs s @ (obj # new)" by simp
      then show ?thesis by blast
    qed
  qed
qed

lemma loop_count:
  assumes "\<And>c t u obj. build c t u = Inr obj \<Longrightarrow> title obj = t \<and> url obj = u"
  shows "autoflush s \<Longrightarrow> update_loop (create_item ckey build) cs added s = (r, s') \<Longrightarrow>
     (key_count k s \<le> 1 \<longrightarrow> key_count k s' \<le> 1) \<and> (key_count k s = 1 \<longrightarrow> key_count k s' = 1)"
proof (induction cs arbitrary: added s)
  case Nil
  then show ?case by simp
next
  case (Cons c cs)
  obtain r1 s1 where c1: "create_item ckey build c s = (r1, s1)" by (cases "create_item ckey build c s")
  note st = create_item_state[OF c1]
  have kc: "key_count k s1 = key_count k s" using st key_count_objs[of s1 s k] by simp
  have af: "autoflush s1" using st Cons.prems(1) by simp
  show ?case
  proof (cases r1)
    case (Inl e)
    with Cons.prems c1 kc show ?thesis by simp
  next
    case (Inr o1)
    show ?thesis
    proof (cases o1)
      case None
      with Cons.prems c1 Inr have "update_loop (create_item ckey build) cs added s1 = (r, s')" by simp
      from Cons.IH[OF af this] kc show ?thesis by simp
    next
      case (Some obj)
      with Cons.prems c1 Inr
      have l: "update_loop (create_item ckey build) cs (added @ [obj]) (db_add obj s1) = (r, s')" by simp
      have z: "key_count (dedup_key obj) s = 0"
        using create_item_new[OF Cons.prems(1) assms, where ckey=ckey and c=c and obj=obj and s'=s1] c1 Inr Some by simp
      have "autoflush (db_add obj s1)" using af by simp
      from Cons.IH[OF this l] z kc show ?thesis
        by (cases "dedup_key obj = k") (auto simp: key_count_add)
    qed
  qed
qed

lemma loop_settles:
  assumes "\<And>c t u obj. build c t u = Inr obj \<Longrightarrow> title obj = t \<and> url obj = u"
  shows "autoflush s \<Longrightarrow> update_loop (create_item ckey build) cs added s = (Inr res, s') \<Longrightarrow>
     c' \<in> set cs \<Longrightarrow> settled ckey s' c'"
proof (induction cs arbitrary: added s)
  case Nil
  then show ?case by simp
next
  case (Cons c cs)
  obtain r1 s1 where c1: "create_item ckey build c s = (r1, s1)" by (cases "create_item ckey build c s")
  note st = create_item_state[OF c1]
  have af: "autoflush s1" using st Cons.prems(1) by simp
  show ?case
  proof (cases r1)
    case (Inl e)
    with Cons.prems c1 show ?thesis by simp
  next
    case (Inr o1)
    show ?thesis
    proof (cases o1)
      case None
      with Cons.prems c1 Inr have l: "update_loop (create_item ckey build) cs added s1 = (Inr res, s')" by simp
      show ?thesis
      proof (cases "c' \<in> set cs")
        case True
        from Cons.IH[OF af l True] show ?thesis .
      next
        case False
        with Cons.prems(3) have cc: "c' = c" by simp
        have "settled ckey s c"
          using create_item_skip[OF Cons.prems(1), of ckey build c s1] c1 Inr None by simp
        then have s1c: "settled ckey s1 c" using st settled_objs[of s1 s ckey c] by simp
        show ?thesis
        proof (cases "ckey c")
          case (Inl e)
          with s1c show ?thesis by (simp add: settled_def)
        next
          case kk: (Inr ko)
          show ?thesis
          proof (cases ko)
            case None
            with kk cc show ?thesis by (simp add: settled_def)
          next
            case (Some k)
            with kk s1c have "key_count k s1 = 1" by (simp add: settled_def)
            with loop_count[OF assms af l, where k=k] have "key_count k s' = 1" by simp
            with kk Some cc show ?thesis by (simp add: settled_def)
          qed
        qed
      qed
    next
      case (Some obj)
      with Cons.prems c1 Inr
      have l: "update_loop (create_item ckey build) cs (added @ [obj]) (db_add obj s1) = (Inr res, s')" by simp
      have af2: "autoflush (db_add obj s1)" using af by simp
      show ?thesis
      proof (cases "c' \<in> set cs")
        case True
        from Cons.IH[OF af2 l True] show ?thesis .
      next
        case False
        with Cons.prems(3) have cc: "c' = c" by simp
        have k: "ckey c = Inr (Some (dedup_key obj))" and z: "key_count (dedup_key obj) s = 0"
          using create_item_new[OF Cons.prems(1) assms, where ckey=ckey and c=c and obj=obj and s'=s1] c1 Inr Some by simp_all
        have "key_count (dedup_key obj) (db_add obj s1) = 1"
          using z st key_count_objs[of s1 s "dedup_key obj"] by (simp add: key_count_add)
        with loop_count[OF assms af2 l, where k="dedup_key obj"] have "key_count (dedup_key obj) s' = 1" by simp
        with k cc show ?thesis by (simp add: settled_def)
      qed
    qed
  qed
qed

lemma loop_settled_noop:
  "autoflush s \<Longrightarrow> (\<And>c. c \<in> set cs \<Longrightarrow> settled ckey s c) \<Longrightarrow>
     fst (update_loop (create_item ckey build) cs added s) = Inr added"
proof (induction cs arbitrary: s)
  case Nil
  then show ?case by simp
next
  case (Cons c cs)
  obtain r1 s1 where c1: "create_item ckey build c s = (r1, s1)" by (cases "create_item ckey build c s")
  note st = create_item_state[OF c1]
  have "settled ckey s c" using Cons.prems(2) by simp
  from create_item_settled[OF Cons.prems(1) this, of build] c1 have r1: "r1 = Inr None" by simp
  have af: "autoflush s1" using st Cons.prems(1) by simp
  have "\<And>c'. c' \<in> set cs \<Longrightarrow> settled ckey s1 c'"
    using Cons.prems(2) st settled_objs[of s1 s ckey] by simp
  from Cons.IH[OF af this] c1 r1 show ?case by simp
qed

lemma stored_commit: "stored (db_commit s) = stored s @ flushed (db_flush s)"
  by (simp add: db_commit_def Let_def)

lemma flushed_commit [simp]: "flushed (db_commit s) = []"
  by (simp add: db_commit_def Let_def)

lemma pending_commit [simp]: "pending (db_commit s) = []"
  by (simp add: db_commit_def Let_def db_flush_def)

lemma key_count_zero: "key_count k s = 0 \<longleftrightarrow> k \<notin> set (map dedup_key (all_objs s))"
  by (auto simp: key_count_def filter_empty_conv)

lemma loop_distinct:
  assumes "\<And>c t u obj. build c t u = Inr obj \<Longrightarrow> title obj = t \<and> url obj = u"
  shows "autoflush s \<Longrightarrow> distinct (map dedup_key (all_objs s)) \<Longrightarrow>
     update_loop (create_item ckey build) cs added s = (r, s') \<Longrightarrow>
     distinct (map dedup_key (all_objs s'))"
proof (induction cs arbitrary: added s)
  case Nil
  then show ?case by simp
next
  case (Cons c cs)
  obtain r1 s1 where c1: "create_item ckey build c s = (r1, s1)" by (cases "create_item ckey build c s")
  note st = create_item_state[OF c1]
  have af: "autoflush s1" using st Cons.prems(1) by simp
  have d1: "distinct (map dedup_key (all_objs s1))" using st Cons.prems(2) by simp
  show ?case
  proof (cases r1)
    case (Inl e)
    with Cons.prems c1 d1 show ?thesis by simp
  next
    case (Inr o1)
    show ?thesis
    proof (cases o1)
      case None
      with Cons.prems c1 Inr have "update_loop (create_item ckey build) cs added s1 = (r, s')" by simp
      from Cons.IH[OF af d1 this] show ?thesis .
    next
      case (Some obj)
      with Cons.prems c1 Inr
      have l: "update_loop (create_item ckey build) cs (added @ [obj]) (db_add obj s1) = (r, s')" by simp
      have z: "key_count (dedup_key obj) s = 0"
        using create_item_new[OF Cons.prems(1) assms, where ckey=ckey and c=c and obj=obj and s'=s1] c1 Inr Some by simp
      then have "dedup_key obj \<notin> set (map dedup_key (all_objs s1))"
        using st by (simp add: key_count_zero)
      with d1 have d2: "distinct (map dedup_key (all_objs (db_add obj s1)))" by simp
      have "autoflush (db_add obj s1)" using af by simp
      from Cons.IH[OF this d2 l] show ?thesis .
    qed
  qed
qed

lemma finish_update_objs:
  "finish_update (r0, s0) = (r, s') \<Longrightarrow> r = r0 \<and> all_objs s' = all_objs s0 \<and> autoflush s' = autoflush s0"
  by (auto simp: finish_update_def split: sum.splits if_splits)

lemma finish_update_Inl: "finish_update (Inl e, s0) = (Inl e, s0)"
  by (simp add: finish_update_def)

text \<open>One run of the scan and the commit, for any item maker of the shared shape.\<close>

lemma run_atomic:
  assumes clean: "flushed s = []" "pending s = []"
    and run: "finish_update (update_loop (create_item ckey build) cs [] s) = (r, s')"
  shows "case r of
           Inl e \<Rightarrow> stored s' = stored s
         | Inr added \<Rightarrow>
             take (length (stored s)) (stored s') = stored s
             \<and> map snd (drop (length (stored s)) (stored s')) = added
             \<and> flushed s' = [] \<and> pending s' = []"
proof -
  obtain r0 s0 where l: "update_loop (create_item ckey build) cs [] s = (r0, s0)"
    by (cases "update_loop (create_item ckey build) cs [] s")
  note ls = loop_stored[OF l]
  show ?thesis
  proof (cases r0)
    case (Inl e)
    with run l ls show ?thesis by (auto simp: finish_update_def)
  next
    case (Inr added)
    from loop_objs[of ckey build cs "[]" s added s0] l Inr
    have objs: "all_objs s0 = all_objs s @ added" by auto
    have base: "all_objs s = map snd (stored s)" using clean by (simp add: all_objs_def)
    show ?thesis
    proof (cases "added = []")
      case True
      with run l Inr have r: "r = Inr []" and s': "s' = s0" by (simp_all add: finish_update_def)
      from objs True base ls have "map snd (flushed s0) @ pending s0 = []"
        by (simp add: all_objs_def)
      then show ?thesis using r s' ls by simp
    next
      case False
      with run l Inr have r: "r = Inr added" and s': "s' = db_commit s0" by (simp_all add: finish_update_def)
      have st: "stored s' = stored s @ flushed (db_flush s0)" using s' ls by (simp add: stored_commit)
      have "all_objs s' = map snd (stored s')" using s' by (simp add: all_objs_def)
      moreover have "all_objs s' = map snd (stored s) @ added" using s' objs base by simp
      ultimately have "map snd (flushed (db_flush s0)) = added" using st by simp
      then show ?thesis using r st s' by simp
    qed
  qed
qed

lemma run_idempotent:
  assumes key: "\<And>c t u obj. build c t u = Inr obj \<Longrightarrow> title obj = t \<and> url obj = u"
    and af: "autoflush s"
    and run: "finish_update (update_loop (create_item ckey build) cs [] s) = (Inr added, s1)"
  shows "fst (finish_update (update_loop (create_item ckey build) cs [] s1)) = Inr []
         \<and> stored (snd (finish_update (update_loop (create_item ckey build) cs [] s1))) = stored s1"
proof -
  obtain r0 s0 where l: "update_loop (create_item ckey build) cs [] s = (r0, s0)"
    by (cases "update_loop (create_item ckey build) cs [] s")
  from finish_update_objs[of r0 s0 "Inr added" s1] run l
  have r0: "r0 = Inr added" and o: "all_objs s1 = all_objs s0" and a1: "autoflush s1 = autoflush s0" by simp_all
  have af1: "autoflush s1" using a1 loop_stored[OF l] af by simp
  have settled1: "\<And>c. c \<in> set cs \<Longrightarrow> settled ckey s1 c"
  proof -
    fix c assume "c \<in> set cs"
    from loop_settles[OF key af, where ckey=ckey and cs=cs and added="[]" and res=added and s'=s0 and c'=c]
      l r0 this
    have "settled ckey s0 c" by simp
    then show "settled ckey s1 c" using o settled_objs[of s1 s0 ckey c] by simp
  qed
  obtain r2 s2 where l2: "update_loop (create_item ckey build) cs [] s1 = (r2, s2)"
    by (cases "update_loop (create_item ckey build) cs [] s1")
  have "fst (update_loop (create_item ckey build) cs [] s1) = Inr []"
    by (rule loop_settled_noop[OF af1]) (rule settled1)
  with l2 have r2: "r2 = Inr []" by simp
  from loop_stored[OF l2] have "stored s2 = stored s1" by simp
  then show ?thesis using l2 r2 by (simp add: finish_update_def)
qed

lemma run_distinct:
  assumes key: "\<And>c t u obj. build c t u = Inr obj \<Longrightarrow> title obj = t \<and> url obj = u"
    and af: "autoflush s"
    and d: "distinct (map dedup_key (all_objs s))"
    and run: "finish_update (update_loop (create_item ckey build) cs [] s) = (r, s')"
  shows "distinct (map dedup_key (all_objs s'))"
proof -
  obtain r0 s0 where l: "update_loop (create_item ckey build) cs [] s = (r0, s0)"
    by (cases "update_loop (create_item ckey build) cs [] s")
  from loop_distinct[OF key af d l] have "distinct (map dedup_key (all_objs s0))" .
  moreover from finish_update_objs[of r0 s0 r s'] run l have "all_objs s' = all_objs s0" by simp
  ultimately show ?thesis by simp
qed

lemma distinct_stored:
  "distinct (map dedup_key (all_objs s)) \<Longrightarrow> distinct (map dedup_key (map snd (stored s)))"
  by (simp add: all_objs_def)

lemma key_count_one:
  "distinct (map dedup_key (all_objs s)) \<Longrightarrow> k \<in> set (map dedup_key (all_objs s)) \<Longrightarrow> key_count k s = 1"
proof -
  assume d: "distinct (map dedup_key (all_objs s))" and m: "k \<in> set (map dedup_key (all_objs s))"
  have "key_count k s = length (filter (\<lambda>y. y = k) (map dedup_key (all_objs s)))"
    by (simp add: key_count_def filter_map o_def)
  also have "\<dots> = card ({y. y = k} \<inter> set (map dedup_key (all_objs s)))"
    using d by (rule distinct_length_filter)
  also have "{y. y = k} \<inter> set (map dedup_key (all_objs s)) = {k}" using m by auto
  finally show ?thesis by simp
qed

lemmas ingest_defs =
  update_episodes_def update_videos_def finish_update_def create_episode_def create_video_def
  find_episode_def find_video_def find_by_title_url_def db_query_def db_flush_def db_commit_def
  db_add_def one_or_none_def build_episode_def build_video_def get_video_metadata_def need_def
  next_rowid_def new_session_def strip_def is_space_def base_url_def vimeo_url_def

lemma ex_run_episodes: "update_episodes ex_site ex_empty = (Inr [ex_minisode], ex_store)"
  by (simp add: ingest_defs ex_site_def ex_empty_def ex_store_def ex_ep_def ex_page_def ex_minisode_def Let_def)

lemma ex_run_videos: "update_videos ex_site 100 ex_vempty = (Inr [ex_video], ex_vstore)"
  by (simp add: ingest_defs ex_site_def ex_vempty_def ex_vstore_def ex_article_def ex_video_def Let_def)

section \<open>Ingestion: one batch, no duplicate, no second insertion\<close>

lemma update_episodes_run:
  "update_episodes st s = (r, s') \<Longrightarrow>
     (episodes_listing st = None \<and> r = Inl ParseFault \<and> s' = s)
     \<or> (\<exists>els. episodes_listing st = Some els
            \<and> finish_update (update_loop (create_item ep_key (build_episode st)) els [] s) = (r, s'))"
  by (auto simp: update_episodes_def create_episode_item split: option.splits)

lemma update_videos_run:
  "update_videos st lim s = (r, s') \<Longrightarrow>
     (news_listing st lim = None \<and> r = Inl ParseFault \<and> s' = s)
     \<or> (\<exists>arts. news_listing st lim = Some arts
            \<and> finish_update (update_loop (create_item art_key (build_video st)) arts [] s) = (r, s'))"
  by (auto simp: update_videos_def create_video_item split: option.splits)

lemma episodes_batch:
  assumes "flushed s = []" "pending s = []" "update_episodes st s = (r, s')"
  shows "case r of
           Inl e \<Rightarrow> stored s' = stored s
         | Inr added \<Rightarrow>
             take (length (stored s)) (stored s') = stored s
             \<and> map snd (drop (length (stored s)) (stored s')) = added
             \<and> flushed s' = [] \<and> pending s' = []"
  using update_episodes_run[OF assms(3)]
proof (elim disjE exE conjE)
  assume "r = Inl ParseFault" "s' = s"
  then show ?thesis by simp
next
  fix els
  assume "finish_update (update_loop (create_item ep_key (build_episode st)) els [] s) = (r, s')"
  with assms(1,2) show ?thesis by (rule run_atomic)
qed

lemma videos_batch:
  assumes "flushed s = []" "pending s = []" "update_videos st lim s = (r, s')"
  shows "case r of
           Inl e \<Rightarrow> stored s' = stored s
         | Inr added \<Rightarrow>
             take (length (stored s)) (stored s') = stored s
             \<and> map snd (drop (length (stored s)) (stored s')) = added
             \<and> flushed s' = [] \<and> pending s' = []"
  using update_videos_run[OF assms(3)]
proof (elim disjE exE conjE)
  assume "r = Inl ParseFault" "s' = s"
  then show ?thesis by simp
next
  fix arts
  assume "finish_update (update_loop (create_item art_key (build_video st)) arts [] s) = (r, s')"
  with assms(1,2) show ?thesis by (rule run_atomic)
qed

lemma episodes_scan_stored: "stored (snd (update_loop (create_episode st) eps acc s)) = stored s"
  using loop_stored[of ep_key "build_episode st" eps acc s
      "fst (update_loop (create_episode st) eps acc s)" "snd (update_loop (create_episode st) eps acc s)"]
  by (simp add: create_episode_item)

lemma videos_scan_stored: "stored (snd (update_loop (create_video st) arts acc s)) = stored s"
  using loop_stored[of art_key "build_video st" arts acc s
      "fst (update_loop (create_video st) arts acc s)" "snd (update_loop (create_video st) arts acc s)"]
  by (simp add: create_video_item)

lemma episodes_idempotent:
  assumes "autoflush s" "update_episodes st s = (Inr added, s1)"
  shows "fst (update_episodes st s1) = Inr [] \<and> stored (snd (update_episodes st s1)) = stored s1"
proof -
  from update_episodes_run[OF assms(2)] obtain els where
    l: "episodes_listing st = Some els"
    and f: "finish_update (update_loop (create_item ep_key (build_episode st)) els [] s) = (Inr added, s1)"
    by auto
  have "fst (finish_update (update_loop (create_item ep_key (build_episode st)) els [] s1)) = Inr []
        \<and> stored (snd (finish_update (update_loop (create_item ep_key (build_episode st)) els [] s1))) = stored s1"
    by (rule run_idempotent[OF build_episode_key assms(1) f])
  then show ?thesis using l by (simp add: update_episodes_def create_episode_item)
qed

lemma videos_idempotent:
  assumes "autoflush s" "update_videos st lim s = (Inr added, s1)"
  shows "fst (update_videos st lim s1) = Inr [] \<and> stored (snd (update_videos st lim s1)) = stored s1"
proof -
  from update_videos_run[OF assms(2)] obtain arts where
    l: "news_listing st lim = Some arts"
    and f: "finish_update (update_loop (create_item art_key (build_video st)) arts [] s) = (Inr added, s1)"
    by auto
  have "fst (finish_update (update_loop (create_item art_key (build_video st)) arts [] s1)) = Inr []
        \<and> stored (snd (finish_update (update_loop (create_item art_key (build_video st)) arts [] s1))) = stored s1"
    by (rule run_idempotent[OF build_video_key assms(1) f])
  then show ?thesis using l by (simp add: update_videos_def create_video_item)
qed

lemma present_is_skipped:
  assumes "autoflush s" "distinct (map dedup_key (all_objs s))" "ckey c = Inr (Some k)"
    "k \<in> set (map dedup_key (all_objs s))"
  shows "fst (create_item ckey build c s) = Inr None
         \<and> all_objs (snd (create_item ckey build c s)) = all_objs s
         \<and> stored (snd (create_item ckey build c s)) = stored s"
proof -
  have "key_count k s = 1" using assms(2,4) by (rule key_count_one)
  with assms(3) have "settled ckey s c" by (simp add: settled_def)
  with assms(1) have "fst (create_item ckey build c s) = Inr None" by (rule create_item_settled)
  moreover have "stored (snd (create_item ckey build c s)) = stored s
      \<and> all_objs (snd (create_item ckey build c s)) = all_objs s
      \<and> autoflush (snd (create_item ckey build c s)) = autoflush s"
    by (rule create_item_state[of ckey build c s "fst (create_item ckey build c s)"]) simp
  ultimately show ?thesis by simp
qed

lemma episodes_distinct:
  assumes "autoflush s" "distinct (map dedup_key (all_objs s))" "update_episodes st s = (r, s')"
  shows "distinct (map dedup_key (map snd (stored s')))"
  using update_episodes_run[OF assms(3)]
proof (elim disjE exE conjE)
  assume same: "s' = s"
  show ?thesis unfolding same using assms(2) by (rule distinct_stored)
next
  fix els
  assume "finish_update (update_loop (create_item ep_key (build_episode st)) els [] s) = (r, s')"
  from run_distinct[OF build_episode_key assms(1,2) this] show ?thesis by (rule distinct_stored)
qed

lemma videos_distinct:
  assumes "autoflush s" "distinct (map dedup_key (all_objs s))" "update_videos st lim s = (r, s')"
  shows "distinct (map dedup_key (map snd (stored s')))"
  using update_videos_run[OF assms(3)]
proof (elim disjE exE conjE)
  assume same: "s' = s"
  show ?thesis unfolding same using assms(2) by (rule distinct_stored)
next
  fix arts
  assume "finish_update (update_loop (create_item art_key (build_video st)) arts [] s) = (r, s')"
  from run_distinct[OF build_video_key assms(1,2) this] show ?thesis by (rule distinct_stored)
qed

text \<open>
  C1 (as amended). Neither content table declares a unique constraint on the pair of
  title and address; the pair is kept unique by the lookup of the ingestion. In a
  session that flushes before it queries, a run of the update that starts from rows
  whose pairs are pairwise different ends, whether it returns or fails, with committed
  rows whose pairs are pairwise different: two candidates with the same pair never give
  two rows. Both kinds.
\<close>

theorem ingestion_keeps_pairs_distinct:
  "(autoflush s \<and> distinct (map dedup_key (all_objs s)) \<and> update_episodes st s = (r, s') \<longrightarrow>
      distinct (map dedup_key (map snd (stored s'))))
   \<and> (autoflush sv \<and> distinct (map dedup_key (all_objs sv)) \<and> update_videos st lim sv = (rv, sv') \<longrightarrow>
      distinct (map dedup_key (map snd (stored sv'))))"
  using episodes_distinct[of s st r s'] videos_distinct[of sv st lim rv sv'] by blast

theorem ingestion_keeps_pairs_distinct_witness:
  "autoflush ex_empty \<and> distinct (map dedup_key (all_objs ex_empty))
   \<and> episodes_listing ex_site = Some [ex_ep, ex_ep]
   \<and> update_episodes ex_site ex_empty = (Inr [ex_minisode], ex_store)
   \<and> distinct (map dedup_key (map snd (stored ex_store)))
   \<and> autoflush ex_vempty \<and> distinct (map dedup_key (all_objs ex_vempty))
   \<and> news_listing ex_site 100 = Some [ex_article, ex_article]
   \<and> update_videos ex_site 100 ex_vempty = (Inr [ex_video], ex_vstore)
   \<and> distinct (map dedup_key (map snd (stored ex_vstore)))"
  using ingestion_keeps_pairs_distinct[of ex_empty ex_site "Inr [ex_minisode]" ex_store
      ex_vempty 100 "Inr [ex_video]" ex_vstore]
    ex_run_episodes ex_run_videos
  by (simp add: ex_empty_def ex_vempty_def new_session_def all_objs_def ex_site_def)

text \<open>
  C1, as stated, fails: the only column set either content table keeps unique is its
  primary key.
\<close>

theorem content_tables_unique_keys:
  "unique_keys minisodes_table = [[''minisode_id'']] \<and> unique_keys videos_table = [[''video_id'']]"
  by (simp add: unique_keys_def minisodes_table_def videos_table_def)

text \<open>
  The lookup, not the table, is what keeps the pair unique: in a session that does not
  flush before it queries, a listing that names one minisode twice gives two rows, and
  the next run fails on the ambiguous lookup.
\<close>

lemma without_flush_two_rows:
  "update_episodes ex_site (new_session [] False)
     = (Inr [ex_minisode, ex_minisode], new_session [(1, ex_minisode), (2, ex_minisode)] False)
   \<and> fst (update_episodes ex_site (new_session [(1, ex_minisode), (2, ex_minisode)] False))
     = Inl MultipleResultsFound"
  by (simp add: ingest_defs ex_site_def ex_ep_def ex_page_def ex_minisode_def Let_def)

text \<open>
  C2. For either kind, a run of the update that starts from a session with nothing
  uncommitted changes the committed rows in one step at its end: when it fails, the
  committed rows are those from before; when it returns, they are the old rows followed
  by exactly the items it reports, and nothing is left uncommitted. While the scan runs,
  after any number of candidates, the committed rows are still those from before.
\<close>

theorem ingestion_commits_one_batch:
  "(flushed s = [] \<and> pending s = [] \<and> update_episodes st s = (r, s') \<longrightarrow>
      (case r of
         Inl e \<Rightarrow> stored s' = stored s
       | Inr added \<Rightarrow>
           take (length (stored s)) (stored s') = stored s
           \<and> map snd (drop (length (stored s)) (stored s')) = added
           \<and> flushed s' = [] \<and> pending s' = []))
   \<and> stored (snd (update_loop (create_episode st) eps acc s)) = stored s
   \<and> (flushed sv = [] \<and> pending sv = [] \<and> update_videos st lim sv = (rv, sv') \<longrightarrow>
      (case rv of
         Inl e \<Rightarrow> stored sv' = stored sv
       | Inr added \<Rightarrow>
           take (length (stored sv)) (stored sv') = stored sv
           \<and> map snd (drop (length (stored sv)) (stored sv')) = added
           \<and> flushed sv' = [] \<and> pending sv' = []))
   \<and> stored (snd (update_loop (create_video st) arts accv sv)) = stored sv"
  using episodes_batch[of s st r s'] videos_batch[of sv st lim rv sv']
    episodes_scan_stored[of st eps acc s] videos_scan_stored[of st arts accv sv]
  by blast

theorem ingestion_commits_one_batch_witness:
  "flushed ex_empty = [] \<and> pending ex_empty = []
   \<and> update_episodes ex_site ex_empty = (Inr [ex_minisode], ex_store)
   \<and> map snd (drop (length (stored ex_empty)) (stored ex_store)) = [ex_minisode]
   \<and> flushed ex_vempty = [] \<and> pending ex_vempty = []
   \<and> update_videos ex_site 100 ex_vempty = (Inr [ex_video], ex_vstore)
   \<and> map snd (drop (length (stored ex_vempty)) (stored ex_vstore)) = [ex_video]"
  using ingestion_commits_one_batch[of ex_empty ex_site "Inr [ex_minisode]" ex_store "[]" "[]"
      ex_vempty 100 "Inr [ex_video]" ex_vstore "[]" "[]"]
    ex_run_episodes ex_run_videos
  by (simp add: ex_empty_def ex_vempty_def new_session_def)

text \<open>
  C6. In a session that flushes before it queries, when a run of the update has
  returned, a second run against the same listing reports no new item and leaves the
  committed rows as they are; and in a store whose pairs of title and address are
  pairwise different, a candidate whose pair is already there is passed over without
  any change to what the session holds. Both kinds.
\<close>

theorem ingestion_idempotent:
  "(autoflush s \<and> update_episodes st s = (Inr added, s1) \<longrightarrow>
      fst (update_episodes st s1) = Inr [] \<and> stored (snd (update_episodes st s1)) = stored s1)
   \<and> (autoflush sv \<and> update_videos st lim sv = (Inr addedv, sv1) \<longrightarrow>
      fst (update_videos st lim sv1) = Inr [] \<and> stored (snd (update_videos st lim sv1)) = stored sv1)
   \<and> (autoflush s \<and> distinct (map dedup_key (all_objs s)) \<and> ep_key ep = Inr (Some k)
        \<and> k \<in> set (map dedup_key (all_objs s)) \<longrightarrow>
      fst (create_episode st ep s) = Inr None
      \<and> all_objs (snd (create_episode st ep s)) = all_objs s
      \<and> stored (snd (create_episode st ep s)) = stored s)
   \<and> (autoflush sv \<and> distinct (map dedup_key (all_objs sv)) \<and> art_key article = Inr (Some kv)
        \<and> kv \<in> set (map dedup_key (all_objs sv)) \<longrightarrow>
      fst (create_video st article sv) = Inr None
      \<and> all_objs (snd (create_video st article sv)) = all_objs sv
      \<and> stored (snd (create_video st article sv)) = stored sv)"
  using episodes_idempotent[of s st added s1] videos_idempotent[of sv st lim addedv sv1]
    present_is_skipped[of s ep_key ep k "build_episode st"]
    present_is_skipped[of sv art_key article kv "build_video st"]
  unfolding create_episode_item create_video_item
  by blast

theorem ingestion_idempotent_witness:
  "autoflush ex_empty \<and> update_episodes ex_site ex_empty = (Inr [ex_minisode], ex_store)
   \<and> update_episodes ex_site ex_store = (Inr [], ex_store)
   \<and> autoflush ex_vempty \<and> update_videos ex_site 100 ex_vempty = (Inr [ex_video], ex_vstore)
   \<and> fst (update_videos ex_site 100 ex_vstore) = Inr []
   \<and> distinct (map dedup_key (all_objs ex_store))
   \<and> ep_key ex_ep = Inr (Some (dedup_key ex_minisode))
   \<and> dedup_key ex_minisode \<in> set (map dedup_key (all_objs ex_store))
   \<and> fst (create_episode ex_site ex_ep ex_store) = Inr None
   \<and> distinct (map dedup_key (all_objs ex_vstore))
   \<and> art_key ex_article = Inr (Some (dedup_key ex_video))
   \<and> dedup_key ex_video \<in> set (map dedup_key (all_objs ex_vstore))
   \<and> fst (create_video ex_site ex_article ex_vstore) = Inr None"
proof -
  have h1: "autoflush ex_empty" "autoflush ex_store" "autoflush ex_vempty" "autoflush ex_vstore"
    by (simp_all add: ex_empty_def ex_store_def ex_vempty_def ex_vstore_def new_session_def)
  have h2: "distinct (map dedup_key (all_objs ex_store))" "distinct (map dedup_key (all_objs ex_vstore))"
    by (simp_all add: ex_store_def ex_vstore_def new_session_def all_objs_def)
  have h3: "ep_key ex_ep = Inr (Some (dedup_key ex_minisode))"
    by (simp add: ep_key_def ex_ep_def dedup_key_def ex_minisode_def strip_def is_space_def base_url_def)
  have h4: "art_key ex_article = Inr (Some (dedup_key ex_video))"
    by (simp add: art_key_def ex_article_def dedup_key_def ex_video_def strip_def is_space_def base_url_def)
  have h5: "dedup_key ex_minisode \<in> set (map dedup_key (all_objs ex_store))"
    "dedup_key ex_video \<in> set (map dedup_key (all_objs ex_vstore))"
    by (simp_all add: ex_store_def ex_vstore_def new_session_def all_objs_def)
  have h6: "update_episodes ex_site ex_store = (fst (update_episodes ex_site ex_store), snd (update_episodes ex_site ex_store))"
    by simp
  have st: "snd (update_episodes ex_site ex_store) = ex_store"
    by (simp add: ingest_defs ex_site_def ex_store_def ex_ep_def ex_minisode_def Let_def)
  show ?thesis
    using ingestion_idempotent[of ex_empty ex_site "[ex_minisode]" ex_store
        ex_vempty 100 "[ex_video]" ex_vstore ex_ep "dedup_key ex_minisode"
        ex_article "dedup_key ex_video"]
      ingestion_idempotent[of ex_store ex_site "[]" ex_store
        ex_vstore 100 "[]" ex_vstore ex_ep "dedup_key ex_minisode"
        ex_article "dedup_key ex_video"]
      ex_run_episodes ex_run_videos h1 h2 h3 h4 h5 h6 st
    by simp
qed

section \<open>Order and size of query results\<close>

lemma desc_sorted:
  "sorted (map (\<lambda>r. - date (snd r)) rows) \<Longrightarrow> sorted_wrt (\<lambda>a b. b \<le> a) (map (\<lambda>r. date (snd r)) rows)"
  by (simp add: sorted_wrt_map)

lemma order_desc_sorted: "sorted_wrt (\<lambda>a b. b \<le> a) (map (\<lambda>r. date (snd r)) (order_by_date_desc rows))"
  unfolding order_by_date_desc_def by (rule desc_sorted) (rule sorted_sort_key)

lemma order_asc_sorted: "sorted (map (\<lambda>r. date (snd r)) (order_by_date_asc rows))"
  unfolding order_by_date_asc_def by (rule sorted_sort_key)

lemma sql_limit_sorted:
  "sorted_wrt P (map f rows) \<Longrightarrow> sorted_wrt P (map f (sql_limit n rows))"
  by (simp add: sql_limit_def take_map[symmetric] sorted_wrt_take)

lemma episode_entries_keys:
  "episode_entries lib st eps fg0 = Inr fg \<Longrightarrow>
     map (\<lambda>e. (fe_id e, fe_title e, fe_published e)) (fg_entries fg)
       = rev (map (\<lambda>r. (str_nat (fst r), title (snd r), date (snd r))) eps)
         @ map (\<lambda>e. (fe_id e, fe_title e, fe_published e)) (fg_entries fg0)"
  by (induction eps arbitrary: fg0)
     (auto simp: add_entry_def episode_entry_def split: option.splits if_splits)

lemma video_entries_fold:
  "fg_entries (fold (\<lambda>v. add_entry (video_entry v)) vs fg) = rev (map video_entry vs) @ fg_entries fg"
  by (induction vs arbitrary: fg) (simp_all add: add_entry_def)

lemma video_entries_published: "map fe_published (map video_entry vs) = map (\<lambda>r. date (snd r)) vs"
  by (simp add: video_entry_def)

lemma episode_feed_entries:
  assumes "episode_feed lib st y s = (Inr fg, s')"
  shows "map (\<lambda>e. (fe_id e, fe_title e, fe_published e)) (fg_entries fg)
           = rev (map (\<lambda>r. (str_nat (fst r), title (snd r), date (snd r)))
                    (order_by_date_asc (fst (db_query s))))"
proof -
  obtain rows s1 where q: "db_query s = (rows, s1)" by (cases "db_query s")
  from assms q have e: "episode_entries lib st (order_by_date_asc rows)
      (get_rss_feed_generator ''minisodes'' y True) = Inr fg"
    by (simp add: episode_feed_def Let_def)
  from episode_entries_keys[OF e] q show ?thesis
    by (simp add: get_rss_feed_generator_def)
qed

lemma episode_feed_sorted:
  assumes "episode_feed lib st y s = (Inr fg, s')"
  shows "sorted_wrt (\<lambda>a b. b \<le> a) (map fe_published (fg_entries fg))"
proof -
  have "map fe_published (fg_entries fg)
          = map (\<lambda>k. snd (snd k)) (map (\<lambda>e. (fe_id e, fe_title e, fe_published e)) (fg_entries fg))"
    by simp
  also have "\<dots> = rev (map (\<lambda>r. date (snd r)) (order_by_date_asc (fst (db_query s))))"
    unfolding episode_feed_entries[OF assms] by (simp add: rev_map)
  finally show ?thesis
    using order_asc_sorted[of "fst (db_query s)"] by (simp add: sorted_wrt_rev)
qed

lemma video_feed_entries:
  "fg_entries (fst (video_feed y limit s))
     = rev (map video_entry (sql_limit limit (order_by_date_desc (fst (db_query s)))))"
proof -
  obtain rows s1 where q: "db_query s = (rows, s1)" by (cases "db_query s")
  then show ?thesis
    by (simp add: video_feed_def Let_def video_entries_fold get_rss_feed_generator_def)
qed

lemma video_feed_sorted:
  "sorted (map fe_published (fg_entries (fst (video_feed y limit s))))"
proof -
  have "map fe_published (fg_entries (fst (video_feed y limit s)))
          = rev (map (\<lambda>r. date (snd r)) (sql_limit limit (order_by_date_desc (fst (db_query s)))))"
    unfolding video_feed_entries by (simp add: rev_map video_entry_def)
  then show ?thesis
    using sql_limit_sorted[OF order_desc_sorted, of limit "fst (db_query s)"]
    by (simp add: sorted_wrt_rev)
qed

lemma minisodes_list_rows:
  "minisodes_list_query n search rows
     = (if 0 < n then take (nat n) (order_by_date_desc (filter (episode_matches search) rows))
        else order_by_date_desc (filter (episode_matches search) rows))"
  by (simp add: minisodes_list_query_def Let_def sql_limit_def)

lemma videos_list_rows:
  "videos_list_query n vt search rows
     = (if 0 < n then take (nat n) (order_by_date_desc (filter (video_matches vt search) rows))
        else order_by_date_desc (filter (video_matches vt search) rows))"
  by (simp add: videos_list_query_def Let_def sql_limit_def)

lemma minisodes_list_sorted:
  "sorted_wrt (\<lambda>a b. b \<le> a) (map (\<lambda>r. date (snd r)) (minisodes_list_query n search rows))"
  by (simp add: minisodes_list_query_def Let_def sql_limit_sorted order_desc_sorted)

lemma videos_list_sorted:
  "sorted_wrt (\<lambda>a b. b \<le> a) (map (\<lambda>r. date (snd r)) (videos_list_query n vt search rows))"
  by (simp add: videos_list_query_def Let_def sql_limit_sorted order_desc_sorted)

text \<open>
  C3 (as amended). The episode feed reads the stored rows in ascending order of publish
  date and the video feed reads the newest rows, as many as its limit, in descending
  order; each entry made is put before the entries made so far. So the episode feed
  lists one entry for each stored row in descending order of publish date (newest
  first), and the video feed lists the entries of its rows in ascending order (oldest
  first). The rows of both listings are the matching rows in descending order of publish
  date, cut to the number asked for when it is positive.
\<close>

theorem feeds_and_listings_ordered:
  "(episode_feed lib st y s = (Inr fg, s') \<longrightarrow>
      map (\<lambda>e. (fe_id e, fe_title e, fe_published e)) (fg_entries fg)
        = rev (map (\<lambda>r. (str_nat (fst r), title (snd r), date (snd r)))
                 (order_by_date_asc (fst (db_query s))))
      \<and> sorted_wrt (\<lambda>a b. b \<le> a) (map fe_published (fg_entries fg)))
   \<and> fg_entries (fst (video_feed y limit sv))
        = rev (map video_entry (sql_limit limit (order_by_date_desc (fst (db_query sv)))))
   \<and> sorted (map fe_published (fg_entries (fst (video_feed y limit sv))))
   \<and> minisodes_list_query n search rows
        = (if 0 < n then take (nat n) (order_by_date_desc (filter (episode_matches search) rows))
           else order_by_date_desc (filter (episode_matches search) rows))
   \<and> sorted_wrt (\<lambda>a b. b \<le> a) (map (\<lambda>r. date (snd r)) (minisodes_list_query n search rows))
   \<and> videos_list_query nv vt vsearch vrows
        = (if 0 < nv then take (nat nv) (order_by_date_desc (filter (video_matches vt vsearch) vrows))
           else order_by_date_desc (filter (video_matches vt vsearch) vrows))
   \<and> sorted_wrt (\<lambda>a b. b \<le> a) (map (\<lambda>r. date (snd r)) (videos_list_query nv vt vsearch vrows))"
proof (intro conjI impI)
  assume e: "episode_feed lib st y s = (Inr fg, s')"
  show "map (\<lambda>e. (fe_id e, fe_title e, fe_published e)) (fg_entries fg)
        = rev (map (\<lambda>r. (str_nat (fst r), title (snd r), date (snd r)))
                 (order_by_date_asc (fst (db_query s))))"
    using e by (rule episode_feed_entries)
  show "sorted_wrt (\<lambda>a b. b \<le> a) (map fe_published (fg_entries fg))"
    using e by (rule episode_feed_sorted)
next
  show "fg_entries (fst (video_feed y limit sv))
        = rev (map video_entry (sql_limit limit (order_by_date_desc (fst (db_query sv)))))"
    by (rule video_feed_entries)
  show "sorted (map fe_published (fg_entries (fst (video_feed y limit sv))))"
    by (rule video_feed_sorted)
  show "minisodes_list_query n search rows
        = (if 0 < n then take (nat n) (order_by_date_desc (filter (episode_matches search) rows))
           else order_by_date_desc (filter (episode_matches search) rows))"
    by (rule minisodes_list_rows)
  show "sorted_wrt (\<lambda>a b. b \<le> a) (map (\<lambda>r. date (snd r)) (minisodes_list_query n search rows))"
    by (rule minisodes_list_sorted)
  show "videos_list_query nv vt vsearch vrows
        = (if 0 < nv then take (nat nv) (order_by_date_desc (filter (video_matches vt vsearch) vrows))
           else order_by_date_desc (filter (video_matches vt vsearch) vrows))"
    by (rule videos_list_rows)
  show "sorted_wrt (\<lambda>a b. b \<le> a) (map (\<lambda>r. date (snd r)) (videos_list_query nv vt vsearch vrows))"
    by (rule videos_list_sorted)
qed

lemma length_order_desc: "length (order_by_date_desc rows) = length rows"
  by (simp add: order_by_date_desc_def)

lemma minisodes_list_limit:
  assumes "0 < n" "n \<le> int (length (filter (episode_matches search) rows))"
  shows "minisodes_list_query n search rows = take (nat n) (order_by_date_desc (filter (episode_matches search) rows))"
    and "int (length (minisodes_list_query n search rows)) = n"
  using assms by (simp_all add: minisodes_list_query_def Let_def sql_limit_def length_order_desc)

lemma videos_list_limit:
  assumes "0 < n" "n \<le> int (length (filter (video_matches vt search) rows))"
  shows "videos_list_query n vt search rows = take (nat n) (order_by_date_desc (filter (video_matches vt search) rows))"
    and "int (length (videos_list_query n vt search rows)) = n"
  using assms by (simp_all add: videos_list_query_def Let_def sql_limit_def length_order_desc)

lemma list_all: 
  "n \<le> 0 \<Longrightarrow> minisodes_list_query n search rows = order_by_date_desc (filter (episode_matches search) rows)"
  "n \<le> 0 \<Longrightarrow> videos_list_query n vt vsearch vrows = order_by_date_desc (filter (video_matches vt vsearch) vrows)"
  by (simp_all add: minisodes_list_query_def videos_list_query_def)

text \<open>
  C7 (as amended). A listing asked for a number N of items, with N positive and at most
  the number of matching items, shows exactly the first N matching items in descending
  order of publish date; asked for N at most 0 it shows all of them; and asked for no
  number it is the listing for N = 10. Both kinds.
\<close>

theorem listing_limit:
  "(0 < n \<and> n \<le> int (length (filter (episode_matches search) rows)) \<longrightarrow>
      minisodes_list_query n search rows
        = take (nat n) (order_by_date_desc (filter (episode_matches search) rows))
      \<and> int (length (minisodes_list_query n search rows)) = n)
   \<and> (n \<le> 0 \<longrightarrow>
      minisodes_list_query n search rows = order_by_date_desc (filter (episode_matches search) rows))
   \<and> minisodes_list st strftime shorten None refresh fmt search s w
       = minisodes_list st strftime shorten (Some 10) refresh fmt search s w
   \<and> (0 < nv \<and> nv \<le> int (length (filter (video_matches vt vsearch) vrows)) \<longrightarrow>
      videos_list_query nv vt vsearch vrows
        = take (nat nv) (order_by_date_desc (filter (video_matches vt vsearch) vrows))
      \<and> int (length (videos_list_query nv vt vsearch vrows)) = nv)
   \<and> (nv \<le> 0 \<longrightarrow>
      videos_list_query nv vt vsearch vrows = order_by_date_desc (filter (video_matches vt vsearch) vrows))
   \<and> videos_list st strftime shorten None refresh fmt vt vsearch sv w
       = videos_list st strftime shorten (Some 10) refresh fmt vt vsearch sv w"
  using minisodes_list_limit[of n search rows] videos_list_limit[of nv vt vsearch vrows]
    list_all(1)[of n search rows] list_all(2)[of nv vt vsearch vrows]
  by (simp add: minisodes_list_def videos_list_def option_default_def)


lemmas query_defs =
  db_query_def db_flush_def new_session_def next_rowid_def order_by_date_asc_def order_by_date_desc_def
  sql_limit_def Let_def

lemma ex_episode_feed:
  "episode_feed ex_feedgen ex_site 2021 ex_pair = (Inr ex_feed, ex_pair)"
  by (simp add: episode_feed_def add_entry_def query_defs ex_pair_def ex_feed_def ex_site_def
      ex_feedgen_def ends_with_def ex_minisode_def ex_later_def get_rss_feed_generator_def)

lemma ex_video_feed:
  "fg_entries (fst (video_feed 2021 25 ex_vpair)) = [video_entry (1, ex_video), video_entry (2, ex_vlater)]"
  "fg_entries (fst (video_feed 2021 1 ex_vpair)) = [video_entry (2, ex_vlater)]"
  by (simp_all add: video_feed_def add_entry_def query_defs ex_vpair_def ex_video_def ex_vlater_def
      get_rss_feed_generator_def)

theorem feeds_and_listings_ordered_witness:
  "episode_feed ex_feedgen ex_site 2021 ex_pair = (Inr ex_feed, ex_pair)
   \<and> map (\<lambda>e. (fe_id e, fe_title e, fe_published e)) (fg_entries ex_feed)
       = [(str_nat 1, ''Minisode 2'', 300), (str_nat 2, ''Minisode 1'', 100)]
   \<and> sorted_wrt (\<lambda>a b. b \<le> a) (map fe_published (fg_entries ex_feed))
   \<and> fg_entries (fst (video_feed 2021 1 ex_vpair)) = [video_entry (2, ex_vlater)]
   \<and> sorted (map fe_published (fg_entries (fst (video_feed 2021 1 ex_vpair))))
   \<and> minisodes_list_query 1 None (stored ex_pair) = [(1, ex_later)]
   \<and> sorted_wrt (\<lambda>a b. b \<le> a) (map (\<lambda>r. date (snd r)) (minisodes_list_query 1 None (stored ex_pair)))
   \<and> videos_list_query 0 None None (stored ex_vpair) = [(2, ex_vlater), (1, ex_video)]
   \<and> sorted_wrt (\<lambda>a b. b \<le> a) (map (\<lambda>r. date (snd r)) (videos_list_query 0 None None (stored ex_vpair)))"
proof -
  note t = feeds_and_listings_ordered[of ex_feedgen ex_site 2021 ex_pair ex_feed ex_pair 1 ex_vpair
      1 None "stored ex_pair" 0 None None "stored ex_vpair"]
  have q: "order_by_date_asc (fst (db_query ex_pair)) = [(2, ex_minisode), (1, ex_later)]"
    "sql_limit 1 (order_by_date_desc (fst (db_query ex_vpair))) = [(2, ex_vlater)]"
    "order_by_date_desc (filter (episode_matches None) (stored ex_pair)) = [(1, ex_later), (2, ex_minisode)]"
    "order_by_date_desc (filter (video_matches None None) (stored ex_vpair)) = [(2, ex_vlater), (1, ex_video)]"
    by (simp_all add: query_defs ex_pair_def ex_vpair_def episode_matches_def video_matches_def
        ex_minisode_def ex_later_def ex_video_def ex_vlater_def)
  have d: "title ex_later = ''Minisode 2''" "date ex_later = 300"
    "title ex_minisode = ''Minisode 1''" "date ex_minisode = 100"
    "date ex_video = 200" "date ex_vlater = 400"
    by (simp_all add: ex_later_def ex_minisode_def ex_video_def ex_vlater_def)
  from t ex_episode_feed show ?thesis
    unfolding q by (simp add: d)
qed

text \<open>
  C3, as stated, fails for both feeds: of two stored minisodes the episode feed lists
  the later one first, and of two stored videos the video feed lists the earlier one
  first.
\<close>

theorem emitted_feeds_reverse_query_order:
  "episode_feed ex_feedgen ex_site 2021 ex_pair = (Inr ex_feed, ex_pair)
   \<and> map fe_published (fg_entries ex_feed) = [300, 100]
   \<and> \<not> sorted (map fe_published (fg_entries ex_feed))
   \<and> map fe_published (fg_entries (fst (video_feed 2021 25 ex_vpair))) = [200, 400]
   \<and> \<not> sorted_wrt (\<lambda>a b. b \<le> a) (map fe_published (fg_entries (fst (video_feed 2021 25 ex_vpair))))"
proof -
  have "map fe_published (fg_entries ex_feed) = [300, 100]"
    by (simp add: ex_feed_def episode_entry_def ex_minisode_def ex_later_def)
  moreover have "map fe_published (fg_entries (fst (video_feed 2021 25 ex_vpair))) = [200, 400]"
    by (simp add: ex_video_feed video_entry_def ex_video_def ex_vlater_def)
  ultimately show ?thesis using ex_episode_feed by simp
qed

theorem listing_limit_witness:
  "(0::int) < 1 \<and> (1::int) \<le> int (length (filter (episode_matches None) (stored ex_pair)))
   \<and> minisodes_list_query 1 None (stored ex_pair) = [(1, ex_later)]
   \<and> (0::int) \<le> 0
   \<and> minisodes_list_query 0 None (stored ex_pair) = [(1, ex_later), (2, ex_minisode)]
   \<and> (1::int) \<le> int (length (filter (video_matches None None) (stored ex_vstore)))
   \<and> videos_list_query 1 None None (stored ex_vstore) = [(1, ex_video)]
   \<and> videos_list_query 0 None None (stored ex_vstore) = [(1, ex_video)]"
  using listing_limit[of 1 None "stored ex_pair" _ _ _ _ _ _ _ 1 None None "stored ex_vstore"]
    listing_limit[of 0 None "stored ex_pair" _ _ _ _ _ _ _ 0 None None "stored ex_vstore"]
  by (simp add: ex_pair_def ex_vstore_def new_session_def episode_matches_def video_matches_def
      order_by_date_desc_def ex_later_def ex_minisode_def ex_video_def)

text \<open>
  C7, as stated, fails for a number left unset: a store of eleven minisodes is listed
  with ten rows.
\<close>

theorem listing_unset_number_shows_ten:
  "length (stored ex_eleven) = 11
   \<and> table_sizes (snd (snd (minisodes_list ex_site (\<lambda>d f. []) (\<lambda>t n. t) None False None None
        ex_eleven ex_world))) = [10]"
  by (simp add: minisodes_list_def minisodes_list_query_def option_default_def query_defs
      ex_eleven_def ex_world_def episode_matches_def table_sizes_def say_def format_episode_list_def
      ex_minisode_def)

text \<open>
  C10. In the table of a minisode listing, the headers are ID, Title, Description, Date
  and URL, and each row holds id, date, title, shortened description and shortened
  address in that order: the date stands under Title, the title under Description and
  the description under Date.
\<close>

theorem episode_table_columns:
  "headers (format_episode_list strftime shorten episodes fmt)
     = [''ID'', ''Title'', ''Description'', ''Date'', ''URL'']
   \<and> table_data (format_episode_list strftime shorten episodes fmt)
     = map (\<lambda>e. [Cell_int (fst e), Cell_str (strftime (date (snd e)) ''%d %B %Y''),
                  Cell_str (title (snd e)), Cell_str (shorten (description (snd e)) 50),
                  Cell_str (shorten (url (snd e)) 50)]) episodes
   \<and> cells_under (format_episode_list strftime shorten episodes fmt) ''ID''
     = map (\<lambda>e. Cell_int (fst e)) episodes
   \<and> cells_under (format_episode_list strftime shorten episodes fmt) ''Title''
     = map (\<lambda>e. Cell_str (strftime (date (snd e)) ''%d %B %Y'')) episodes
   \<and> cells_under (format_episode_list strftime shorten episodes fmt) ''Description''
     = map (\<lambda>e. Cell_str (title (snd e))) episodes
   \<and> cells_under (format_episode_list strftime shorten episodes fmt) ''Date''
     = map (\<lambda>e. Cell_str (shorten (description (snd e)) 50)) episodes
   \<and> cells_under (format_episode_list strftime shorten episodes fmt) ''URL''
     = map (\<lambda>e. Cell_str (shorten (url (snd e)) 50)) episodes"
  by (induction episodes) (simp_all add: format_episode_list_def cells_under_def Let_def)

theorem episode_table_columns_witness:
  "cells_under (format_episode_list (\<lambda>d f. ''01 January 1970'') (\<lambda>t n. take n t) [(1, ex_minisode)] ''psql'') ''Title''
     = [Cell_str ''01 January 1970'']
   \<and> cells_under (format_episode_list (\<lambda>d f. ''01 January 1970'') (\<lambda>t n. take n t) [(1, ex_minisode)] ''psql'') ''Description''
     = [Cell_str ''Minisode 1'']
   \<and> cells_under (format_episode_list (\<lambda>d f. ''01 January 1970'') (\<lambda>t n. take n t) [(1, ex_minisode)] ''psql'') ''Date''
     = [Cell_str ''Hometowns'']"
  using episode_table_columns[of "\<lambda>d f. ''01 January 1970''" "\<lambda>t n. take n t" "[(1, ex_minisode)]" "''psql''"]
  by (simp add: ex_minisode_def)

section \<open>Downloads and the file system\<close>

lemma say_fields [simp]:
  "files (say m w) = files w" "dirs (say m w) = dirs w" "console (say m w) = console w @ [m]"
  by (simp_all add: say_def)

lemma get_download_path_exists:
  "isfile w (path_join base_path file_name) \<Longrightarrow>
     get_download_path base_path file_name yes answer w
       = (None, say (already_exists (path_join base_path file_name)) w)"
  by (simp add: get_download_path_def Let_def)

lemma download_episode_exists:
  "isfile w (path_join episode_path (basename (audio (snd episode)))) \<Longrightarrow>
     download_episode st episode episode_path yes answer w
       = (Inr (), say (already_exists (path_join episode_path (basename (audio (snd episode))))) w)"
  by (simp add: download_episode_def Let_def get_download_path_exists)

lemma download_video_exists:
  "resolve_video_file st v = Inr (stream, file_name) \<Longrightarrow> isfile w (path_join video_path file_name) \<Longrightarrow>
     download_video st v video_path yes answer w
       = (Inr (), say (already_exists (path_join video_path file_name)) w)"
  by (simp add: download_video_def get_download_path_exists)

text \<open>
  C4. When a file of the resolved name is already at the destination, the download of
  either kind returns after a warning that names the file: no file and no directory
  changes, and the only output is the warning.
\<close>

theorem download_never_overwrites:
  "(isfile w (path_join base_path file_name) \<longrightarrow>
      get_download_path base_path file_name yes answer w
        = (None, say (already_exists (path_join base_path file_name)) w))
   \<and> (isfile w (path_join episode_path (basename (audio (snd episode)))) \<longrightarrow>
      fst (download_episode st episode episode_path yes answer w) = Inr ()
      \<and> files (snd (download_episode st episode episode_path yes answer w)) = files w
      \<and> dirs (snd (download_episode st episode episode_path yes answer w)) = dirs w
      \<and> console (snd (download_episode st episode episode_path yes answer w))
          = console w @ [already_exists (path_join episode_path (basename (audio (snd episode))))])
   \<and> (resolve_video_file st v = Inr (stream, video_name) \<and> isfile w (path_join video_path video_name) \<longrightarrow>
      fst (download_video st v video_path yes answer w) = Inr ()
      \<and> files (snd (download_video st v video_path yes answer w)) = files w
      \<and> dirs (snd (download_video st v video_path yes answer w)) = dirs w
      \<and> console (snd (download_video st v video_path yes answer w))
          = console w @ [already_exists (path_join video_path video_name)])"
  by (simp add: get_download_path_exists download_episode_exists download_video_exists)

lemmas path_defs = path_join_def basename_def isfile_def isdir_def

theorem download_never_overwrites_witness:
  "isfile ex_world_full (path_join ''/home/u/Minisodes'' (basename (audio (snd (1::nat, ex_minisode)))))
   \<and> files (snd (download_episode ex_site (1, ex_minisode) ''/home/u/Minisodes'' True True ex_world_full))
       ''/home/u/Minisodes/one.m4a'' = Some (Media ''old'')
   \<and> console (snd (download_episode ex_site (1, ex_minisode) ''/home/u/Minisodes'' True True ex_world_full))
       = [already_exists ''/home/u/Minisodes/one.m4a'']
   \<and> resolve_video_file ex_site (1, ex_video) = Inr (ex_stream, ''Live Show.mp4'')
   \<and> isfile ex_world_full (path_join ''/home/u/Videos'' ''Live Show.mp4'')
   \<and> files (snd (download_video ex_site (1, ex_video) ''/home/u/Videos'' True True ex_world_full))
       ''/home/u/Videos/Live Show.mp4'' = Some (Media ''old'')
   \<and> console (snd (download_video ex_site (1, ex_video) ''/home/u/Videos'' True True ex_world_full))
       = [already_exists ''/home/u/Videos/Live Show.mp4'']"
proof -
  have r: "resolve_video_file ex_site (1, ex_video) = Inr (ex_stream, ''Live Show.mp4'')"
    by (simp add: resolve_video_file_def get_video_metadata_def need_def ex_site_def ex_video_def
        ex_stream_def ends_with_def Let_def)
  have e: "isfile ex_world_full (path_join ''/home/u/Minisodes'' (basename (audio (snd (1::nat, ex_minisode)))))"
    by (simp add: path_defs ex_world_full_def ex_minisode_def)
  have p: "path_join ''/home/u/Minisodes'' (basename (audio (snd (1::nat, ex_minisode)))) = ''/home/u/Minisodes/one.m4a''"
    by (simp add: path_defs ex_minisode_def)
  have v: "isfile ex_world_full (path_join ''/home/u/Videos'' ''Live Show.mp4'')"
    by (simp add: path_defs ex_world_full_def)
  have pv: "path_join ''/home/u/Videos'' ''Live Show.mp4'' = ''/home/u/Videos/Live Show.mp4''"
    by (simp add: path_defs)
  have f: "files ex_world_full ''/home/u/Minisodes/one.m4a'' = Some (Media ''old'')"
    "files ex_world_full ''/home/u/Videos/Live Show.mp4'' = Some (Media ''old'')"
    "console ex_world_full = []"
    by (simp_all add: ex_world_full_def)
  show ?thesis
    using download_never_overwrites[of ex_world_full "''/home/u/Minisodes''" "''one.m4a''" True True
        "''/home/u/Minisodes''" "(1, ex_minisode)" ex_site "(1, ex_video)" ex_stream "''Live Show.mp4''"
        "''/home/u/Videos''"]
      r e v f
    unfolding p pv
    by simp
qed


lemma clean_query: "flushed s = [] \<Longrightarrow> pending s = [] \<Longrightarrow> db_query s = (stored s, s)"
  by (cases s) (simp add: db_query_def db_flush_def Let_def)

lemma db_get_absent:
  "flushed s = [] \<Longrightarrow> pending s = [] \<Longrightarrow> i \<notin> set (map fst (stored s)) \<Longrightarrow> db_get i s = (None, s)"
  by (force simp: db_get_def clean_query find_None_iff)

lemma get_download_dir_effect:
  "get_download_dir m dest account wm w = (r, w1) \<Longrightarrow>
     files w1 = files w \<and> console w1 = console w \<and> dirs w \<subseteq> dirs w1"
  by (auto simp: get_download_dir_def makedirs_def Let_def split: option.splits if_splits sum.splits)

lemma get_download_dir_existing:
  "get_download_dir m dest account wm w = (Inr p, w1) \<Longrightarrow> isdir w p \<Longrightarrow> w1 = w"
  by (auto simp: get_download_dir_def makedirs_def Let_def split: option.splits if_splits sum.splits)

lemma minisodes_download_absent:
  assumes "flushed s = []" "pending s = []" "i \<notin> set (map fst (stored s))"
    and "get_download_dir ''minisodes'' dest account True w = (r, w1)"
  shows "minisodes_download st i yes dest account answer s w
           = (case r of Inl e \<Rightarrow> (Inl e, s, w1) | Inr p \<Rightarrow> (Inr (), s, say (not_found ''minisode'' i) w1))"
  using assms(4) db_get_absent[OF assms(1-3)]
  by (simp add: minisodes_download_def get_episode_def split: sum.splits)

lemma videos_download_absent:
  assumes "flushed s = []" "pending s = []" "i \<notin> set (map fst (stored s))"
    and "get_download_dir ''videos'' dest account True w = (r, w1)"
  shows "videos_download st i yes dest account answer s w
           = (case r of Inl e \<Rightarrow> (Inl e, s, w1) | Inr p \<Rightarrow> (Inr (), s, say (not_found ''video'' i) w1))"
  using assms(4) db_get_absent[OF assms(1-3)]
  by (simp add: videos_download_def get_video_def split: sum.splits)

lemma minisodes_unknown:
  assumes "flushed s = []" "pending s = []" "i \<notin> set (map fst (stored s))"
  shows "files (snd (snd (minisodes_download st i yes dest account answer s w))) = files w
      \<and> dirs w \<subseteq> dirs (snd (snd (minisodes_download st i yes dest account answer s w)))
      \<and> fst (snd (minisodes_download st i yes dest account answer s w)) = s
      \<and> (get_download_dir ''minisodes'' dest account True w = (Inr p, w1) \<longrightarrow>
           minisodes_download st i yes dest account answer s w
             = (Inr (), s, say (not_found ''minisode'' i) w1)
           \<and> files w1 = files w \<and> console w1 = console w
           \<and> (isdir w p \<longrightarrow> w1 = w))"
proof -
  obtain r w1' where g: "get_download_dir ''minisodes'' dest account True w = (r, w1')"
    by (cases "get_download_dir ''minisodes'' dest account True w")
  note m = minisodes_download_absent[OF assms g, where st=st and yes=yes and answer=answer]
  note e = get_download_dir_effect[OF g]
  have 1: "files (snd (snd (minisodes_download st i yes dest account answer s w))) = files w"
    using m e by (cases r) simp_all
  have 2: "dirs w \<subseteq> dirs (snd (snd (minisodes_download st i yes dest account answer s w)))"
    using m e by (cases r) simp_all
  have 3: "fst (snd (minisodes_download st i yes dest account answer s w)) = s"
    using m by (cases r) simp_all
  have 4: "get_download_dir ''minisodes'' dest account True w = (Inr p, w1) \<longrightarrow>
           minisodes_download st i yes dest account answer s w
             = (Inr (), s, say (not_found ''minisode'' i) w1)
           \<and> files w1 = files w \<and> console w1 = console w
           \<and> (isdir w p \<longrightarrow> w1 = w)"
  proof
    assume g': "get_download_dir ''minisodes'' dest account True w = (Inr p, w1)"
    from minisodes_download_absent[OF assms g', where st=st and yes=yes and answer=answer]
    have "minisodes_download st i yes dest account answer s w
             = (Inr (), s, say (not_found ''minisode'' i) w1)" by simp
    moreover from get_download_dir_effect[OF g'] have "files w1 = files w" "console w1 = console w" by simp_all
    moreover have "isdir w p \<longrightarrow> w1 = w" using get_download_dir_existing[OF g'] by simp
    ultimately show "minisodes_download st i yes dest account answer s w
             = (Inr (), s, say (not_found ''minisode'' i) w1)
           \<and> files w1 = files w \<and> console w1 = console w
           \<and> (isdir w p \<longrightarrow> w1 = w)" by simp
  qed
  from 1 2 3 4 show ?thesis by (intro conjI)
qed

lemma videos_unknown:
  assumes "flushed s = []" "pending s = []" "i \<notin> set (map fst (stored s))"
  shows "files (snd (snd (videos_download st i yes dest account answer s w))) = files w
      \<and> dirs w \<subseteq> dirs (snd (snd (videos_download st i yes dest account answer s w)))
      \<and> fst (snd (videos_download st i yes dest account answer s w)) = s
      \<and> (get_download_dir ''videos'' dest account True w = (Inr p, w1) \<longrightarrow>
           videos_download st i yes dest account answer s w
             = (Inr (), s, say (not_found ''video'' i) w1)
           \<and> files w1 = files w \<and> console w1 = console w
           \<and> (isdir w p \<longrightarrow> w1 = w))"
proof -
  obtain r w1' where g: "get_download_dir ''videos'' dest account True w = (r, w1')"
    by (cases "get_download_dir ''videos'' dest account True w")
  note m = videos_download_absent[OF assms g, where st=st and yes=yes and answer=answer]
  note e = get_download_dir_effect[OF g]
  have 1: "files (snd (snd (videos_download st i yes dest account answer s w))) = files w"
    using m e by (cases r) simp_all
  have 2: "dirs w \<subseteq> dirs (snd (snd (videos_download st i yes dest account answer s w)))"
    using m e by (cases r) simp_all
  have 3: "fst (snd (videos_download st i yes dest account answer s w)) = s"
    using m by (cases r) simp_all
  have 4: "get_download_dir ''videos'' dest account True w = (Inr p, w1) \<longrightarrow>
           videos_download st i yes dest account answer s w
             = (Inr (), s, say (not_found ''video'' i) w1)
           \<and> files w1 = files w \<and> console w1 = console w
           \<and> (isdir w p \<longrightarrow> w1 = w)"
  proof
    assume g': "get_download_dir ''videos'' dest account True w = (Inr p, w1)"
    from videos_download_absent[OF assms g', where st=st and yes=yes and answer=answer]
    have "videos_download st i yes dest account answer s w
             = (Inr (), s, say (not_found ''video'' i) w1)" by simp
    moreover from get_download_dir_effect[OF g'] have "files w1 = files w" "console w1 = console w" by simp_all
    moreover have "isdir w p \<longrightarrow> w1 = w" using get_download_dir_existing[OF g'] by simp
    ultimately show "videos_download st i yes dest account answer s w
             = (Inr (), s, say (not_found ''video'' i) w1)
           \<and> files w1 = files w \<and> console w1 = console w
           \<and> (isdir w p \<longrightarrow> w1 = w)" by simp
  qed
  from 1 2 3 4 show ?thesis by (intro conjI)
qed

text \<open>
  C5 (as amended). For an id that no stored row has, the download command of either
  kind writes no file and changes no row; once the destination directory is resolved it
  reports that nothing was found for the id and returns. The directory is resolved
  before the lookup: it is made when it does not exist yet, and when it exists nothing
  in the file system changes.
\<close>

theorem download_unknown_id:
  "(flushed s = [] \<and> pending s = [] \<and> i \<notin> set (map fst (stored s)) \<longrightarrow>
      files (snd (snd (minisodes_download st i yes dest account answer s w))) = files w
      \<and> dirs w \<subseteq> dirs (snd (snd (minisodes_download st i yes dest account answer s w)))
      \<and> fst (snd (minisodes_download st i yes dest account answer s w)) = s
      \<and> (get_download_dir ''minisodes'' dest account True w = (Inr p, w1) \<longrightarrow>
           minisodes_download st i yes dest account answer s w
             = (Inr (), s, say (not_found ''minisode'' i) w1)
           \<and> files w1 = files w \<and> console w1 = console w
           \<and> (isdir w p \<longrightarrow> w1 = w)))
   \<and> (flushed sv = [] \<and> pending sv = [] \<and> i \<notin> set (map fst (stored sv)) \<longrightarrow>
      files (snd (snd (videos_download st i yes dest account answer sv w))) = files w
      \<and> dirs w \<subseteq> dirs (snd (snd (videos_download st i yes dest account answer sv w)))
      \<and> fst (snd (videos_download st i yes dest account answer sv w)) = sv
      \<and> (get_download_dir ''videos'' dest account True w = (Inr pv, wv1) \<longrightarrow>
           videos_download st i yes dest account answer sv w
             = (Inr (), sv, say (not_found ''video'' i) wv1)
           \<and> files wv1 = files w \<and> console wv1 = console w
           \<and> (isdir w pv \<longrightarrow> wv1 = w)))"
  (is "(?H1 \<longrightarrow> ?C1) \<and> (?H2 \<longrightarrow> ?C2)")
proof (rule conjI; rule impI)
  assume ?H1
  then have "flushed s = []" "pending s = []" "i \<notin> set (map fst (stored s))" by simp_all
  then show ?C1 by (rule minisodes_unknown)
next
  assume ?H2
  then have "flushed sv = []" "pending sv = []" "i \<notin> set (map fst (stored sv))" by simp_all
  then show ?C2 by (rule videos_unknown)
qed

lemma capitalized_names:
  "capitalize ''minisodes'' = ''Minisodes''" "capitalize ''videos'' = ''Videos''"
  by code_simp+

lemmas dir_defs =
  get_download_dir_def makedirs_def given_def capitalized_names
  path_join_def isdir_def isfile_def Let_def

lemma ex_dir_minisodes:
  "get_download_dir ''minisodes'' None ex_account True ex_world_full = (Inr ''/home/u/Minisodes'', ex_world_full)"
  by (simp add: dir_defs ex_account_def ex_world_full_def)

lemma ex_dir_videos:
  "get_download_dir ''videos'' None ex_account True ex_world_full = (Inr ''/home/u/Videos'', ex_world_full)"
  by (simp add: dir_defs ex_account_def ex_world_full_def)

theorem download_unknown_id_witness:
  "flushed ex_store = [] \<and> pending ex_store = [] \<and> 7 \<notin> set (map fst (stored ex_store))
   \<and> get_download_dir ''minisodes'' None ex_account True ex_world_full = (Inr ''/home/u/Minisodes'', ex_world_full)
   \<and> isdir ex_world_full ''/home/u/Minisodes''
   \<and> minisodes_download ex_site 7 True None ex_account True ex_store ex_world_full
       = (Inr (), ex_store, say (not_found ''minisode'' 7) ex_world_full)
   \<and> flushed ex_vstore = [] \<and> pending ex_vstore = [] \<and> 7 \<notin> set (map fst (stored ex_vstore))
   \<and> get_download_dir ''videos'' None ex_account True ex_world_full = (Inr ''/home/u/Videos'', ex_world_full)
   \<and> isdir ex_world_full ''/home/u/Videos''
   \<and> videos_download ex_site 7 True None ex_account True ex_vstore ex_world_full
       = (Inr (), ex_vstore, say (not_found ''video'' 7) ex_world_full)"
  using download_unknown_id[of ex_store 7 ex_site True None ex_account True ex_world_full
      "''/home/u/Minisodes''" ex_world_full ex_vstore "''/home/u/Videos''" ex_world_full]
    ex_dir_minisodes ex_dir_videos
  by (simp add: ex_store_def ex_vstore_def new_session_def isdir_def ex_world_full_def)

text \<open>
  C5, as stated, fails: with the destination directory not there yet, the download of
  an id that no row has makes the directory before it reports that nothing was found.
\<close>

theorem download_unknown_id_makes_directory:
  "7 \<notin> set (map fst (stored ex_empty))
   \<and> ''/home/u/Minisodes'' \<notin> dirs ex_world
   \<and> console (snd (snd (minisodes_download ex_site 7 True None ex_account True ex_empty ex_world)))
       = [not_found ''minisode'' 7]
   \<and> ''/home/u/Minisodes'' \<in> dirs (snd (snd (minisodes_download ex_site 7 True None ex_account True ex_empty ex_world)))"
  by (simp add: minisodes_download_def get_episode_def db_get_def db_query_def db_flush_def next_rowid_def
      dir_defs say_def ex_empty_def new_session_def ex_account_def ex_world_def)

section \<open>Feeds: what is emitted and where\<close>









lemma episode_feed_state: "snd (episode_feed lib st y s) = snd (db_query s)"
  by (simp add: episode_feed_def Let_def split: prod.splits)

























section \<open>Accounts\<close>

lemma get_account_empty_reply:
  assumes "1 < length all_accounts"
  shows "get_account convert all_accounts ([] # replies) w
           = (Inr (Some (all_accounts ! 0)),
              w\<lparr>console := console w @ [Echo ''Multiple accounts found:''] @ account_lines all_accounts
                            @ [Prompted (CHR 0x0A # ''Enter account number'')]\<rparr>)"
proof -
  from assms obtain a b rest where "all_accounts = a # b # rest"
    by (cases all_accounts; cases "tl all_accounts") auto
  then show ?thesis
    by (simp add: get_account_def Let_def say_def)
qed

lemma login_user_empty_reply:
  assumes "1 < length all_accounts"
  shows "login_user st decode convert all_accounts ([] # replies) w
           = (case make_login_request st (username (all_accounts ! 0)) (decode (password (all_accounts ! 0)))
                     (snd (get_account convert all_accounts ([] # replies) w)) of
                (Inl e, w2) \<Rightarrow> (Inl e, w2)
              | (Inr success, w2) \<Rightarrow>
                  (if success then (Inr (Some (all_accounts ! 0)), w2) else (Inr None, w2)))"
  unfolding login_user_def get_account_empty_reply[OF assms]
  by (simp split: prod.splits sum.splits)

text \<open>
  C8 (as amended). When more than one account row exists, the accounts are listed and
  the user is asked for an account number, with 0 as the default. A user who gives no
  index, answering with the empty line, is not refused: the first account listed is
  taken and login proceeds with it. The session is then authenticated as that account
  when the login request succeeds, and authentication fails exactly when the login
  request reports a failure.
\<close>

theorem several_accounts_prompt_with_default:
  "1 < length all_accounts \<longrightarrow>
     get_account convert all_accounts ([] # replies) w
       = (Inr (Some (all_accounts ! 0)),
          w\<lparr>console := console w @ [Echo ''Multiple accounts found:''] @ account_lines all_accounts
                        @ [Prompted (CHR 0x0A # ''Enter account number'')]\<rparr>)
     \<and> (fst (make_login_request st (username (all_accounts ! 0)) (decode (password (all_accounts ! 0)))
              (snd (get_account convert all_accounts ([] # replies) w))) = Inr True \<longrightarrow>
          fst (login_user st decode convert all_accounts ([] # replies) w) = Inr (Some (all_accounts ! 0)))
     \<and> (fst (login_user st decode convert all_accounts ([] # replies) w) = Inr None) =
         (fst (make_login_request st (username (all_accounts ! 0)) (decode (password (all_accounts ! 0)))
              (snd (get_account convert all_accounts ([] # replies) w))) = Inr False)"
proof
  assume many: "1 < length all_accounts"
  let ?w1 = "snd (get_account convert all_accounts ([] # replies) w)"
  obtain r2 w2 where m: "make_login_request st (username (all_accounts ! 0))
      (decode (password (all_accounts ! 0))) ?w1 = (r2, w2)"
    by (cases "make_login_request st (username (all_accounts ! 0)) (decode (password (all_accounts ! 0))) ?w1")
  have l: "fst (login_user st decode convert all_accounts ([] # replies) w)
             = (case r2 of Inl e \<Rightarrow> Inl e | Inr success \<Rightarrow> if success then Inr (Some (all_accounts ! 0)) else Inr None)"
    unfolding login_user_empty_reply[OF many] m by (simp split: sum.splits)
  have a: "fst (make_login_request st (username (all_accounts ! 0)) (decode (password (all_accounts ! 0))) ?w1) = Inr True \<longrightarrow>
          fst (login_user st decode convert all_accounts ([] # replies) w) = Inr (Some (all_accounts ! 0))"
    unfolding l m by simp
  have b: "(fst (login_user st decode convert all_accounts ([] # replies) w) = Inr None) =
         (fst (make_login_request st (username (all_accounts ! 0)) (decode (password (all_accounts ! 0))) ?w1) = Inr False)"
    unfolding l m by (cases r2) auto
  from get_account_empty_reply[OF many, of convert replies w] a b
  show "get_account convert all_accounts ([] # replies) w
       = (Inr (Some (all_accounts ! 0)),
          w\<lparr>console := console w @ [Echo ''Multiple accounts found:''] @ account_lines all_accounts
                        @ [Prompted (CHR 0x0A # ''Enter account number'')]\<rparr>)
     \<and> (fst (make_login_request st (username (all_accounts ! 0)) (decode (password (all_accounts ! 0)))
              (snd (get_account convert all_accounts ([] # replies) w))) = Inr True \<longrightarrow>
          fst (login_user st decode convert all_accounts ([] # replies) w) = Inr (Some (all_accounts ! 0)))
     \<and> (fst (login_user st decode convert all_accounts ([] # replies) w) = Inr None) =
         (fst (make_login_request st (username (all_accounts ! 0)) (decode (password (all_accounts ! 0)))
              (snd (get_account convert all_accounts ([] # replies) w))) = Inr False)"
    by (intro conjI)
qed

lemmas login_defs =
  login_user_def get_account_def make_login_request_def account_lines_def say_def Let_def

theorem several_accounts_prompt_with_default_witness:
  "1 < length [ex_account, ex_account2]
   \<and> fst (get_account ex_choice [ex_account, ex_account2] [[]] ex_world) = Inr (Some ex_account)
   \<and> console (snd (get_account ex_choice [ex_account, ex_account2] [[]] ex_world))
       = [Echo ''Multiple accounts found:'',
          Echo ('' ['' @ str_nat 0 @ ''] a@mfm.test''), Echo ('' ['' @ str_nat 1 @ ''] b@mfm.test''),
          Prompted (CHR 0x0A # ''Enter account number'')]
   \<and> fst (make_login_request ex_site (username ex_account) (id (password ex_account))
            (snd (get_account ex_choice [ex_account, ex_account2] [[]] ex_world))) = Inr True
   \<and> fst (login_user ex_site id ex_choice [ex_account, ex_account2] [[]] ex_world) = Inr (Some ex_account)"
proof -
  have m: "fst (make_login_request ex_site (username ex_account) (id (password ex_account))
            (snd (get_account ex_choice [ex_account, ex_account2] [[]] ex_world))) = Inr True"
    by (simp add: make_login_request_def ex_site_def)
  have c: "console ex_world = []" by (simp add: ex_world_def)
  have u: "username ex_account = ''a@mfm.test''" "username ex_account2 = ''b@mfm.test''"
    by (simp_all add: ex_account_def ex_account2_def)
  have z: "[0 ..< length [ex_account, ex_account2]] = [0, 1]" by (simp add: upt_rec)
  show ?thesis
    using several_accounts_prompt_with_default[of "[ex_account, ex_account2]" ex_choice "[]" ex_world ex_site id] m
    by (simp add: account_lines_def c u z)
qed

text \<open>
  C8, as stated, fails: with two accounts stored and the empty line as the reply to the
  prompt, whatever the prompt does with other lines, the first account is chosen and the
  session is authenticated as it.
\<close>

theorem two_accounts_empty_reply_logs_in:
  "length [ex_account, ex_account2] = 2
   \<and> (\<forall>convert. fst (login_user ex_site id convert [ex_account, ex_account2] [[]] ex_world)
         = Inr (Some ex_account))"
  by (simp add: login_defs ex_site_def)

end
